theory Spec2Isabelle
  imports Main "HOL-Library.Word"
begin

section \<open>The scene script \<open>demoSceneScript.ts\<close> as a state machine\<close>

text \<open>
  The script \<open>DemoSceneScript\<close> is glue between the page (DOM), the voice feature
  (\<open>this.lex\<close>), the avatar host and the screen-switching utility. Every method mutates
  the page or calls a collaborator, so the model passes one record of everything the
  script can read or change, and every method is a function from that record to an
  outcome: it returns, or it throws with the mutations made so far kept (JavaScript does
  not roll back).
\<close>

subsection \<open>Values of the runtime\<close>

text \<open>
  A JavaScript string is a sequence of UTF-16 code units. Text that comes from outside
  (transcripts, messages, error messages) is modelled so; the identifiers the source
  writes as ASCII literals (element ids, class tokens, screen names, console texts) are
  plain HOL strings.
\<close>

type_synonym js_string = "16 word list"

definition utf16 :: "string \<Rightarrow> js_string" where
  "utf16 cs = map of_char cs"

text \<open>
  \<open>TypeError\<close> is what the runtime raises on a property access on \<open>undefined\<close> or
  \<open>null\<close>; \<open>Failure m\<close> is an error object with message \<open>m\<close> coming from a collaborator
  (a rejection reason of \<open>enableMicInput\<close>). The text of a \<open>TypeError\<close> is the engine's.
\<close>

datatype js_error = TypeError | Failure js_string

fun error_message :: "js_error \<Rightarrow> js_string" where
  "error_message TypeError = utf16 ''Cannot read properties of undefined''"
| "error_message (Failure m) = m"

text \<open>
  What a \<open>catch\<close> block can receive: a promise may be rejected with any value. \<open>Nullish\<close>
  is \<open>undefined\<close> or \<open>null\<close>, on which reading a property throws; \<open>NoMessage\<close> is any
  other value whose \<open>message\<close> is not a string (a string or a number given as the reason,
  an object without the property); \<open>ErrorObject e\<close> is an error object. Reading
  \<open>e.message\<close> gives the exception or what was read.
\<close>

datatype js_thrown = Nullish | NoMessage | ErrorObject js_error

fun thrown_message :: "js_thrown \<Rightarrow> js_error + js_string option" where
  "thrown_message Nullish = Inl TypeError"
| "thrown_message NoMessage = Inr None"
| "thrown_message (ErrorObject e) = Inr (Some (error_message e))"

text \<open>The response of the chatbot: the two fields the script reads.\<close>

record lexResponse =
  inputTranscript :: js_string
  message :: js_string

text \<open>
  The function objects the script creates: the arrow functions of lines 76, 77, 83, 87,
  94, 97, 98 and 127. The two response listeners are different closures with the same
  body.
\<close>

datatype handler =
    OnStartClick
  | OnEnableMicClick
  | OnTalkMouseDown
  | OnTalkMouseUp
  | OnLexResponseReady_initChatbot
  | OnLexResponseReady_initConversationManagement
  | OnRecordBegin
  | OnRecordEnd

text \<open>
  An element of the page: its class list (a \<open>DOMTokenList\<close>: ordered, without
  duplicates), its text, and the three handler properties the script assigns.
\<close>

record element =
  classList :: "string list"
  innerText :: js_string
  onclick :: "handler option"
  onmousedown :: "handler option"
  onmouseup :: "handler option"

datatype lex_event_name = lexResponseReady | recordBegin | recordEnd

datatype lex_call = BeginVoiceRecording | EndVoiceRecording | EnableMicInput

text \<open>
  The voice feature, as far as the script touches it: the bot configuration it was built
  with, the callbacks registered by \<open>listenTo\<close> in registration order, and the log of the
  commands it received.
\<close>

record lex_feature =
  botName :: string
  botAlias :: string
  listeners :: "(lex_event_name \<times> handler) list"
  calls :: "lex_call list"

datatype log_entry = LogText string | LogResponse "lexResponse option"

text \<open>
  The state: the page (\<open>window.location.host\<close>, the elements by id, the calls of
  \<open>showUiScreen\<close>, \<open>alert\<close> and \<open>console.log\<close>), the avatar host's speech calls, the
  credential provider and the SDK configuration, the fields of the script (\<open>None\<close> is
  \<open>undefined\<close> or \<open>null\<close>; an element reference is the element's id), and what the
  runtime has pending: armed start timers and suspended microphone acquisitions.
\<close>

record state =
  locationHost :: string
  document :: "string \<rightharpoonup> element"
  shownScreens :: "string list"
  alerts :: "string list"
  console :: "log_entry list"
  spoken :: "js_string list"
  connectorRegion :: string
  connectorCredentials :: string
  awsRegion :: "string option"
  awsCredentials :: "string option"
  this_lex :: "lex_feature option"
  messageContainerEl :: "string option"
  transcriptTextEl :: "string option"
  startTimers :: nat
  pendingMic :: nat

datatype outcome = Returned state | Threw js_error state

fun state_of :: "outcome \<Rightarrow> state" where
  "state_of (Returned s) = s"
| "state_of (Threw e s) = s"

fun thrown :: "outcome \<Rightarrow> js_error option" where
  "thrown (Returned s) = None"
| "thrown (Threw e s) = Some e"

text \<open>Statement sequencing: an exception skips the rest.\<close>

fun andThen :: "outcome \<Rightarrow> (state \<Rightarrow> outcome) \<Rightarrow> outcome" where
  "andThen (Returned s) f = f s"
| "andThen (Threw e s) f = Threw e s"

subsection \<open>The platform and the collaborators\<close>

definition getElementById :: "state \<Rightarrow> string \<Rightarrow> string option" where
  "getElementById s i = (case document s i of None \<Rightarrow> None | Some el \<Rightarrow> Some i)"

text \<open>
  Mutating the element behind a reference. A reference comes from \<open>getElementById\<close> and
  the script removes no element, so the element is there; a reference without one would
  change nothing.
\<close>

definition updateElement :: "string \<Rightarrow> (element \<Rightarrow> element) \<Rightarrow> state \<Rightarrow> state" where
  "updateElement r f s = s\<lparr>document := (document s)(r := map_option f (document s r))\<rparr>"

text \<open>\<open>classList.add\<close> and \<open>classList.remove\<close> of a token list.\<close>

definition classList_add :: "string \<Rightarrow> string list \<Rightarrow> string list" where
  "classList_add c cs = (if c \<in> set cs then cs else cs @ [c])"

definition classList_remove :: "string \<Rightarrow> string list \<Rightarrow> string list" where
  "classList_remove c cs = removeAll c cs"

definition consoleLog :: "log_entry \<Rightarrow> state \<Rightarrow> state" where
  "consoleLog x s = s\<lparr>console := console s @ [x]\<rparr>"

definition alert :: "string \<Rightarrow> state \<Rightarrow> state" where
  "alert x s = s\<lparr>alerts := alerts s @ [x]\<rparr>"

text \<open>
  Modelled from the spec: \<open>showUiScreen\<close> of \<open>./domUtils\<close> is not among the sources. The
  spec gives it as a utility taking a screen-name string and making exactly one named
  screen visible. The model logs each call; the visible screen is the last one named.
\<close>

definition showUiScreen :: "string \<Rightarrow> state \<Rightarrow> state" where
  "showUiScreen n s = s\<lparr>shownScreens := shownScreens s @ [n]\<rparr>"

definition visibleScreen :: "state \<Rightarrow> string option" where
  "visibleScreen s = (if shownScreens s = [] then None else Some (last (shownScreens s)))"

text \<open>
  \<open>this.hostNode.host.TextToSpeechFeature.play\<close>: the avatar host is injected by the
  editor and is taken to be present; the model logs the text it is asked to speak.
\<close>

definition play :: "js_string \<Rightarrow> state \<Rightarrow> state" where
  "play t s = s\<lparr>spoken := spoken s @ [t]\<rparr>"

text \<open>A method call on \<open>this.lex\<close>, which is \<open>undefined\<close> until \<open>initChatbot\<close> assigns it.\<close>

definition lexCall :: "lex_call \<Rightarrow> state \<Rightarrow> outcome" where
  "lexCall c s =
     (case this_lex s of
        None \<Rightarrow> Threw TypeError s
      | Some l \<Rightarrow> Returned (s\<lparr>this_lex := Some (l\<lparr>calls := calls l @ [c]\<rparr>)\<rparr>))"

definition listenTo :: "lex_event_name \<Rightarrow> handler \<Rightarrow> state \<Rightarrow> outcome" where
  "listenTo n h s =
     (case this_lex s of
        None \<Rightarrow> Threw TypeError s
      | Some l \<Rightarrow> Returned (s\<lparr>this_lex := Some (l\<lparr>listeners := listeners l @ [(n, h)]\<rparr>)\<rparr>))"

subsection \<open>The methods of the script\<close>

definition previewNotice :: string where
  \<open>previewNotice =
     ''Due to limitations of the Babylon.JS Editor, this demo can not be run from '' @
     ''the Preview panel. Instead, use any of the options from the "Run" menu.''\<close>

definition greeting :: js_string where
  \<open>greeting = utf16
     ''Hello. How can I help?  You can say things like, "I'd like to rent a car," or, "Help me book a hotel".''\<close>

text \<open>
  \<open>document.getElementById(i).onclick = h\<close> and its two siblings: a \<open>TypeError\<close> when the
  page has no such element.
\<close>

definition setOnclick :: "string \<Rightarrow> handler \<Rightarrow> state \<Rightarrow> outcome" where
  "setOnclick i h s =
     (case getElementById s i of
        None \<Rightarrow> Threw TypeError s
      | Some r \<Rightarrow> Returned (updateElement r (\<lambda>el. el\<lparr>onclick := Some h\<rparr>) s))"

definition initUi :: "state \<Rightarrow> outcome" where
  "initUi s =
     (let isRunningInViewport = (locationHost s = '''') in
      if isRunningInViewport then Returned (alert previewNotice s)
      else andThen (setOnclick ''startButton'' OnStartClick s)
             (setOnclick ''enableMicButton'' OnEnableMicClick))"

definition initConversationManagement :: "state \<Rightarrow> outcome" where
  "initConversationManagement s =
     (case getElementById s ''talkButton'' of
        None \<Rightarrow> Threw TypeError s
      | Some talkButton \<Rightarrow>
          (let s1 = updateElement talkButton (\<lambda>el. el\<lparr>onmousedown := Some OnTalkMouseDown\<rparr>) s;
               s2 = updateElement talkButton (\<lambda>el. el\<lparr>onmouseup := Some OnTalkMouseUp\<rparr>) s1
           in andThen (listenTo lexResponseReady OnLexResponseReady_initConversationManagement s2)
             (\<lambda>s3. andThen (listenTo recordBegin OnRecordBegin s3)
             (\<lambda>s4. andThen (listenTo recordEnd OnRecordEnd s4)
             (\<lambda>s5. Returned
                (s5\<lparr>messageContainerEl := getElementById s5 ''userMessageContainer'',
                    transcriptTextEl := getElementById s5 ''transcriptText''\<rparr>))))))"

definition initChatbot :: "state \<Rightarrow> outcome" where
  "initChatbot s =
     (let s1 = s\<lparr>awsRegion := Some (connectorRegion s),
                 awsCredentials := Some (connectorCredentials s)\<rparr>;
          s2 = s1\<lparr>this_lex := Some \<lparr>botName = ''BookTrip'', botAlias = ''Dev'',
                                    listeners = [], calls = []\<rparr>\<rparr>
      in andThen (listenTo lexResponseReady OnLexResponseReady_initChatbot s2)
           initConversationManagement)"

definition startMainExperience :: "state \<Rightarrow> outcome" where
  "startMainExperience s = Returned (play greeting (showUiScreen ''chatbotUiScreen'' s))"

definition displaySpeechInputTranscript :: "js_string \<Rightarrow> state \<Rightarrow> outcome" where
  "displaySpeechInputTranscript text s =
     (case transcriptTextEl s of
        None \<Rightarrow> Threw TypeError s
      | Some t \<Rightarrow>
          (let s1 = updateElement t (\<lambda>el. el\<lparr>innerText := [0x201C] @ text @ [0x201D]\<rparr>) s
           in case messageContainerEl s1 of
                None \<Rightarrow> Threw TypeError s1
              | Some mc \<Rightarrow>
                  Returned (updateElement mc
                    (\<lambda>el. el\<lparr>classList := classList_add ''showingMessage'' (classList el)\<rparr>) s1)))"

text \<open>
  The listener is called with the event's payload; an event without one passes
  \<open>undefined\<close> (\<open>None\<close>), and reading \<open>response.inputTranscript\<close> then throws, after the
  class was removed.
\<close>

definition handleLexResponse :: "lexResponse option \<Rightarrow> state \<Rightarrow> outcome" where
  "handleLexResponse response s =
     (let s0 = consoleLog (LogResponse response) s in
      case messageContainerEl s0 of
        None \<Rightarrow> Threw TypeError s0
      | Some mc \<Rightarrow>
          (let s1 = updateElement mc
                 (\<lambda>el. el\<lparr>classList := classList_remove ''processing'' (classList el)\<rparr>) s0
           in case response of
                None \<Rightarrow> Threw TypeError s1
              | Some r \<Rightarrow>
                  andThen (displaySpeechInputTranscript (inputTranscript r) s1)
                    (\<lambda>s2. Returned (play (message r) s2))))"

definition displayProcessingMessage :: "state \<Rightarrow> outcome" where
  "displayProcessingMessage s =
     (case messageContainerEl s of
        None \<Rightarrow> Threw TypeError s
      | Some mc \<Rightarrow>
          Returned (updateElement mc
            (\<lambda>el. el\<lparr>classList := classList_add ''processing'' (classList el)\<rparr>) s))"

definition hideUserMessages :: "state \<Rightarrow> outcome" where
  "hideUserMessages s =
     (case messageContainerEl s of
        None \<Rightarrow> Threw TypeError s
      | Some mc \<Rightarrow>
          Returned (updateElement mc
            (\<lambda>el. el\<lparr>classList := classList_remove ''showingMessage'' (classList el)\<rparr>) s))"

text \<open>
  \<open>acquireMicrophoneAccess\<close> is \<open>async\<close>: it runs up to the \<open>await\<close>, is suspended, and
  is resumed when the promise of \<open>enableMicInput\<close> settles. The \<open>catch\<close> block is shared by
  the rejection and by the \<open>TypeError\<close> of calling a method of an undefined \<open>this.lex\<close>,
  which happens before any suspension. The \<open>catch\<close> block reads \<open>e.message\<close> of whatever
  it caught, so it throws itself on a rejection with \<open>undefined\<close> or \<open>null\<close>; no caller
  of the method handles that, and it is an outcome of the delivery of the settlement.
\<close>

datatype settlement = Fulfilled | Rejected js_thrown

definition acquireMicrophoneAccess_catch :: "js_thrown \<Rightarrow> state \<Rightarrow> outcome" where
  "acquireMicrophoneAccess_catch e s =
     (case thrown_message e of
        Inl err \<Rightarrow> Threw err s
      | Inr m \<Rightarrow>
          if m = Some (utf16 ''Permission dismissed'')
          then Returned (showUiScreen ''micPermissionDismissedScreen'' s)
          else Returned (showUiScreen ''micDisabledScreen'' s))"

definition acquireMicrophoneAccess_begin :: "state \<Rightarrow> outcome" where
  "acquireMicrophoneAccess_begin s =
     (let s1 = showUiScreen ''micInitScreen'' s in
      case lexCall EnableMicInput s1 of
        Threw e s2 \<Rightarrow> acquireMicrophoneAccess_catch (ErrorObject e) s2
      | Returned s2 \<Rightarrow> Returned (s2\<lparr>pendingMic := Suc (pendingMic s2)\<rparr>))"

fun acquireMicrophoneAccess_resume :: "settlement \<Rightarrow> state \<Rightarrow> outcome" where
  "acquireMicrophoneAccess_resume Fulfilled s =
     Returned (showUiScreen ''startScreen'' (consoleLog (LogText ''Microphone ready'') s))"
| "acquireMicrophoneAccess_resume (Rejected e) s = acquireMicrophoneAccess_catch e s"

text \<open>
  A run of \<open>acquireMicrophoneAccess\<close> with nothing delivered between the call of
  \<open>enableMicInput\<close> and its settlement \<open>r\<close>.
\<close>

definition acquireMicrophoneAccess :: "settlement \<Rightarrow> state \<Rightarrow> outcome" where
  "acquireMicrophoneAccess r s =
     (let s1 = showUiScreen ''micInitScreen'' s in
      case lexCall EnableMicInput s1 of
        Threw e s2 \<Rightarrow> acquireMicrophoneAccess_catch (ErrorObject e) s2
      | Returned s2 \<Rightarrow> acquireMicrophoneAccess_resume r s2)"

text \<open>The timer callback of \<open>onStart\<close>, and \<open>onStart\<close> itself, which only arms the timer.\<close>

definition onStart_callback :: "state \<Rightarrow> outcome" where
  "onStart_callback s =
     andThen (initChatbot s) (\<lambda>s1. andThen (initUi s1) acquireMicrophoneAccess_begin)"

definition onStart :: "state \<Rightarrow> outcome" where
  "onStart s = Returned (s\<lparr>startTimers := Suc (startTimers s)\<rparr>)"

definition keyDownHandler :: "state \<Rightarrow> outcome" where
  "keyDownHandler s = acquireMicrophoneAccess_begin s"

definition talkKeyDownHandler :: "state \<Rightarrow> outcome" where
  "talkKeyDownHandler s = Returned s"

definition talkKeyUpHandler :: "state \<Rightarrow> outcome" where
  "talkKeyUpHandler s = Returned (consoleLog (LogText ''End listening.'') s)"

subsection \<open>Events\<close>

text \<open>
  Modelled from the spec: the decorator \<open>onKeyboardEvent\<close> of \<open>./decorators\<close> is not among
  the sources. The spec gives the decorated methods as the reactions to the press or
  release of their key, so a keyboard event runs the method decorated with its key and
  type (lines 205, 210 and 215), and no other.
\<close>

datatype KeyboardEventTypes = KEYDOWN | KEYUP

definition keyboardEvent :: "string \<Rightarrow> KeyboardEventTypes \<Rightarrow> state \<Rightarrow> outcome" where
  "keyboardEvent k t s =
     (if k = ''z'' \<and> t = KEYDOWN then keyDownHandler s
      else if k = '' '' \<and> t = KEYDOWN then talkKeyDownHandler s
      else if k = '' '' \<and> t = KEYUP then talkKeyUpHandler s
      else Returned s)"

text \<open>Calling one of the script's closures, with the payload of the event if it has one.\<close>

fun run_handler :: "handler \<Rightarrow> lexResponse option \<Rightarrow> state \<Rightarrow> outcome" where
  "run_handler OnStartClick p s = startMainExperience s"
| "run_handler OnEnableMicClick p s = acquireMicrophoneAccess_begin s"
| "run_handler OnTalkMouseDown p s =
     lexCall BeginVoiceRecording (consoleLog (LogText ''Begin recording'') s)"
| "run_handler OnTalkMouseUp p s =
     lexCall EndVoiceRecording (consoleLog (LogText ''End recording'') s)"
| "run_handler OnLexResponseReady_initChatbot p s = handleLexResponse p s"
| "run_handler OnLexResponseReady_initConversationManagement p s = handleLexResponse p s"
| "run_handler OnRecordBegin p s = hideUserMessages s"
| "run_handler OnRecordEnd p s = displayProcessingMessage s"

text \<open>
  What a call of one of the closures evaluates to. A method without a \<open>return\<close> statement
  and an arrow function with a block body give \<open>undefined\<close> when they complete; an
  \<open>async\<close> method gives a promise at once, whatever its body did before its first
  \<open>await\<close>, and never throws to its caller. Every closure but the one of line 77 has a
  body or calls a method of the first kind; the closure of line 77 passes on the promise
  of \<open>acquireMicrophoneAccess\<close>.
\<close>

datatype js_value = Undefined | Promise

datatype completion = Normal js_value state | Abrupt js_error state

fun voidCall :: "outcome \<Rightarrow> completion" where
  "voidCall (Returned s) = Normal Undefined s"
| "voidCall (Threw e s) = Abrupt e s"

fun asyncCall :: "outcome \<Rightarrow> completion" where
  "asyncCall (Returned s) = Normal Promise s"
| "asyncCall (Threw e s) = Normal Promise s"

fun call_handler :: "handler \<Rightarrow> lexResponse option \<Rightarrow> state \<Rightarrow> completion" where
  "call_handler OnStartClick p s = voidCall (startMainExperience s)"
| "call_handler OnEnableMicClick p s = asyncCall (acquireMicrophoneAccess_begin s)"
| "call_handler OnTalkMouseDown p s =
     voidCall (lexCall BeginVoiceRecording (consoleLog (LogText ''Begin recording'') s))"
| "call_handler OnTalkMouseUp p s =
     voidCall (lexCall EndVoiceRecording (consoleLog (LogText ''End recording'') s))"
| "call_handler OnLexResponseReady_initChatbot p s = voidCall (handleLexResponse p s)"
| "call_handler OnLexResponseReady_initConversationManagement p s =
     voidCall (handleLexResponse p s)"
| "call_handler OnRecordBegin p s = voidCall (hideUserMessages s)"
| "call_handler OnRecordEnd p s = voidCall (displayProcessingMessage s)"

text \<open>The runtime and the voice feature drop the value a handler gives them.\<close>

fun dropValue :: "completion \<Rightarrow> outcome" where
  "dropValue (Normal v s) = Returned s"
| "dropValue (Abrupt e s) = Threw e s"

fun run_listeners :: "handler list \<Rightarrow> lexResponse option \<Rightarrow> state \<Rightarrow> outcome" where
  "run_listeners [] p s = Returned s"
| "run_listeners (h # hs) p s = andThen (run_handler h p s) (run_listeners hs p)"

datatype lex_event = LexResponseReady lexResponse | RecordBegin | RecordEnd

fun event_name :: "lex_event \<Rightarrow> lex_event_name" where
  "event_name (LexResponseReady r) = lexResponseReady"
| "event_name RecordBegin = recordBegin"
| "event_name RecordEnd = recordEnd"

fun event_payload :: "lex_event \<Rightarrow> lexResponse option" where
  "event_payload (LexResponseReady r) = Some r"
| "event_payload RecordBegin = None"
| "event_payload RecordEnd = None"

text \<open>
  What the runtime can deliver to the script: the start timer, the settlement of a
  suspended microphone acquisition, a mouse event on an element, a keyboard event, and
  an event emitted by the voice feature, which calls the listeners registered under the
  event's name in registration order (a listener that throws ends the delivery).
\<close>

datatype event =
    TimerFired
  | MicSettled settlement
  | Click string
  | MouseDown string
  | MouseUp string
  | KeyEvent string KeyboardEventTypes
  | LexEmit lex_event

definition dispatch :: "(element \<Rightarrow> handler option) \<Rightarrow> string \<Rightarrow> state \<Rightarrow> outcome" where
  "dispatch prop i s =
     (case document s i of
        None \<Rightarrow> Returned s
      | Some el \<Rightarrow> (case prop el of None \<Rightarrow> Returned s | Some h \<Rightarrow> run_handler h None s))"

definition emit :: "lex_event \<Rightarrow> state \<Rightarrow> outcome" where
  "emit ev s =
     (case this_lex s of
        None \<Rightarrow> Returned s
      | Some l \<Rightarrow>
          run_listeners (map snd (filter (\<lambda>(n, h). n = event_name ev) (listeners l)))
            (event_payload ev) s)"

fun fire :: "event \<Rightarrow> state \<Rightarrow> outcome" where
  "fire TimerFired s =
     (if startTimers s = 0 then Returned s
      else onStart_callback (s\<lparr>startTimers := startTimers s - 1\<rparr>))"
| "fire (MicSettled r) s =
     (if pendingMic s = 0 then Returned s
      else acquireMicrophoneAccess_resume r (s\<lparr>pendingMic := pendingMic s - 1\<rparr>))"
| "fire (Click i) s = dispatch onclick i s"
| "fire (MouseDown i) s = dispatch onmousedown i s"
| "fire (MouseUp i) s = dispatch onmouseup i s"
| "fire (KeyEvent k t) s = keyboardEvent k t s"
| "fire (LexEmit ev) s = emit ev s"

text \<open>
  A page as it is loaded: the script has assigned nothing yet. The states the script can
  be in are those reached from a loaded page by \<open>onStart\<close> (the editor calls it once, when
  the scene starts) and then any events, whether their handlers return or throw.
\<close>

definition pageLoaded :: "state \<Rightarrow> bool" where
  "pageLoaded s \<longleftrightarrow>
     this_lex s = None \<and> messageContainerEl s = None \<and> transcriptTextEl s = None \<and>
     startTimers s = 0 \<and> pendingMic s = 0 \<and>
     (\<forall>i el. document s i = Some el \<longrightarrow>
        onclick el = None \<and> onmousedown el = None \<and> onmouseup el = None)"

inductive reachable :: "state \<Rightarrow> bool" where
  started: "pageLoaded s \<Longrightarrow> reachable (state_of (onStart s))"
| fired: "reachable s \<Longrightarrow> reachable (state_of (fire ev s))"

text \<open>The number of \<open>enableMicInput\<close> calls the voice feature has received.\<close>

definition micAccessAttempts :: "state \<Rightarrow> nat" where
  "micAccessAttempts s =
     (case this_lex s of None \<Rightarrow> 0 | Some l \<Rightarrow> count_list (calls l) EnableMicInput)"

text \<open>The handler properties that are set on the element of an id, and their number over a list of ids.\<close>

definition boundHandlers :: "state \<Rightarrow> string \<Rightarrow> handler list" where
  "boundHandlers s i =
     (case document s i of
        None \<Rightarrow> []
      | Some el \<Rightarrow> concat (map (\<lambda>prop. case prop el of None \<Rightarrow> [] | Some h \<Rightarrow> [h])
                             [onclick, onmousedown, onmouseup]))"

definition handlerBindings :: "state \<Rightarrow> string list \<Rightarrow> nat" where
  "handlerBindings s ids = length (concat (map (boundHandlers s) ids))"

text \<open>The class list and the text of an element of the page (empty when it is absent).\<close>

definition classesOf :: "state \<Rightarrow> string \<Rightarrow> string list" where
  "classesOf s i = (case document s i of None \<Rightarrow> [] | Some el \<Rightarrow> classList el)"

definition textOf :: "state \<Rightarrow> string \<Rightarrow> js_string" where
  "textOf s i = (case document s i of None \<Rightarrow> [] | Some el \<Rightarrow> innerText el)"

text \<open>
  The listeners a completed \<open>initChatbot\<close> leaves registered, and the state of the script
  once \<open>initConversationManagement\<close> has run to its end on a page that has the message
  container and the transcript element.
\<close>

definition registeredListeners :: "(lex_event_name \<times> handler) list" where
  "registeredListeners =
     [(lexResponseReady, OnLexResponseReady_initChatbot),
      (lexResponseReady, OnLexResponseReady_initConversationManagement),
      (recordBegin, OnRecordBegin),
      (recordEnd, OnRecordEnd)]"

definition uiReady :: "state \<Rightarrow> bool" where
  "uiReady s \<longleftrightarrow>
     messageContainerEl s = Some ''userMessageContainer'' \<and>
     transcriptTextEl s = Some ''transcriptText'' \<and>
     document s ''userMessageContainer'' \<noteq> None \<and>
     document s ''transcriptText'' \<noteq> None"

subsection \<open>An example page\<close>

text \<open>
  A page with the five elements the script looks up, nothing bound and no class set,
  served from the given host. The empty host is what \<open>window.location.host\<close> is in the
  editor's preview panel and for a page opened from a file.
\<close>

definition blankElement :: element where
  "blankElement = \<lparr>classList = [], innerText = [], onclick = None,
                   onmousedown = None, onmouseup = None\<rparr>"

definition uiElementIds :: "string list" where
  "uiElementIds = [''startButton'', ''enableMicButton'', ''talkButton'',
                   ''userMessageContainer'', ''transcriptText'']"

definition examplePage :: "string \<Rightarrow> state" where
  "examplePage host =
     \<lparr>locationHost = host,
      document = map_of (map (\<lambda>i. (i, blankElement)) uiElementIds),
      shownScreens = [], alerts = [], console = [], spoken = [],
      connectorRegion = ''us-west-2'', connectorCredentials = ''credentials'',
      awsRegion = None, awsCredentials = None,
      this_lex = None, messageContainerEl = None, transcriptTextEl = None,
      startTimers = 0, pendingMic = 0\<rparr>"

definition exampleStarted :: "string \<Rightarrow> state" where
  "exampleStarted host = state_of (fire TimerFired (state_of (onStart (examplePage host))))"

text \<open>The same page served from \<open>localhost\<close> without its message container, started.\<close>

definition examplePageNoContainer :: state where
  "examplePageNoContainer =
     (examplePage ''localhost'')
       \<lparr>document := (document (examplePage ''localhost''))(''userMessageContainer'' := None)\<rparr>"

definition exampleNoContainerStarted :: state where
  "exampleNoContainerStarted =
     state_of (fire TimerFired (state_of (onStart examplePageNoContainer)))"

subsection \<open>What holds in every reachable state\<close>

text \<open>
  The closures sit only where the script puts them: \<open>initUi\<close> binds the two click
  handlers, \<open>initConversationManagement\<close> the two mouse handlers of the talk button.
\<close>

definition handlersWired :: "state \<Rightarrow> bool" where
  "handlersWired s \<longleftrightarrow>
     (\<forall>i el. document s i = Some el \<longrightarrow>
        (onclick el = None \<or> (i = ''startButton'' \<and> onclick el = Some OnStartClick) \<or>
           (i = ''enableMicButton'' \<and> onclick el = Some OnEnableMicClick)) \<and>
        (onmousedown el = None \<or>
           (i = ''talkButton'' \<and> onmousedown el = Some OnTalkMouseDown)) \<and>
        (onmouseup el = None \<or>
           (i = ''talkButton'' \<and> onmouseup el = Some OnTalkMouseUp)))"

text \<open>
  Once the voice feature exists, either the page has no talk button and \<open>initChatbot\<close>
  threw after its own registration, or all four listeners are registered and the two
  element references have been assigned from the page.
\<close>

definition listenersWired :: "state \<Rightarrow> bool" where
  "listenersWired s \<longleftrightarrow>
     (\<forall>l. this_lex s = Some l \<longrightarrow>
        (if document s ''talkButton'' = None
         then listeners l = [(lexResponseReady, OnLexResponseReady_initChatbot)]
         else listeners l = registeredListeners \<and>
              messageContainerEl s = getElementById s ''userMessageContainer'' \<and>
              transcriptTextEl s = getElementById s ''transcriptText''))"

definition initialised :: "state \<Rightarrow> bool" where
  "initialised s \<longleftrightarrow>
     map_option listeners (this_lex s) = Some registeredListeners \<and> uiReady s"

text \<open>
  What every method other than the two initialisers leaves alone: the registered listeners,
  the two element references, the set of elements of the page and their handler
  properties.
\<close>

definition sameHandlers :: "element \<Rightarrow> element \<Rightarrow> bool" where
  "sameHandlers el el' \<longleftrightarrow>
     onclick el' = onclick el \<and> onmousedown el' = onmousedown el \<and> onmouseup el' = onmouseup el"

definition keepsWiring :: "state \<Rightarrow> state \<Rightarrow> bool" where
  "keepsWiring s s' \<longleftrightarrow>
     map_option listeners (this_lex s') = map_option listeners (this_lex s) \<and>
     messageContainerEl s' = messageContainerEl s \<and>
     transcriptTextEl s' = transcriptTextEl s \<and>
     (\<forall>i. rel_option sameHandlers (document s i) (document s' i))"

text \<open>The calls of \<open>showUiScreen\<close> made between two states name no chatbot UI screen.\<close>

definition noChatbotUiScreen :: "state \<Rightarrow> state \<Rightarrow> bool" where
  "noChatbotUiScreen s s' \<longleftrightarrow>
     (\<exists>xs. shownScreens s' = shownScreens s @ xs \<and> ''chatbotUiScreen'' \<notin> set xs)"

section \<open>Lemmas\<close>

lemmas platform_defs = getElementById_def updateElement_def classList_add_def classList_remove_def
  consoleLog_def alert_def showUiScreen_def play_def lexCall_def listenTo_def

subsection \<open>The two initialisers in closed form\<close>

lemma initChatbot_no_talkButton:
  assumes "document s ''talkButton'' = None"
  shows "initChatbot s = Threw TypeError
           (s\<lparr>awsRegion := Some (connectorRegion s),
              awsCredentials := Some (connectorCredentials s),
              this_lex := Some \<lparr>botName = ''BookTrip'', botAlias = ''Dev'',
                listeners = [(lexResponseReady, OnLexResponseReady_initChatbot)], calls = []\<rparr>\<rparr>)"
  using assms
  by (simp add: initChatbot_def initConversationManagement_def platform_defs Let_def)

lemma initChatbot_talkButton:
  assumes "document s ''talkButton'' = Some el"
  shows "initChatbot s = Returned
           (s\<lparr>document := (document s)(''talkButton'' \<mapsto>
                 el\<lparr>onmousedown := Some OnTalkMouseDown, onmouseup := Some OnTalkMouseUp\<rparr>),
              awsRegion := Some (connectorRegion s),
              awsCredentials := Some (connectorCredentials s),
              this_lex := Some \<lparr>botName = ''BookTrip'', botAlias = ''Dev'',
                listeners = registeredListeners, calls = []\<rparr>,
              messageContainerEl := getElementById s ''userMessageContainer'',
              transcriptTextEl := getElementById s ''transcriptText''\<rparr>)"
  using assms
  by (simp add: initChatbot_def initConversationManagement_def platform_defs Let_def
       registeredListeners_def)

lemma initChatbot_handlersWired:
  "handlersWired s \<Longrightarrow> handlersWired (state_of (initChatbot s))"
proof (cases "document s ''talkButton''")
  case None
  assume "handlersWired s"
  then show ?thesis
    by (simp add: initChatbot_no_talkButton [OF None] handlersWired_def)
next
  case (Some el)
  assume hw: "handlersWired s"
  with Some have "onclick el = None"
    unfolding handlersWired_def by fastforce
  with hw show ?thesis
    by (auto simp: initChatbot_talkButton [OF Some] handlersWired_def)
qed

lemma initChatbot_listenersWired:
  "listenersWired (state_of (initChatbot s))"
proof (cases "document s ''talkButton''")
  case None
  then show ?thesis
    by (simp add: initChatbot_no_talkButton [OF None] listenersWired_def)
next
  case (Some el)
  then show ?thesis
    by (simp add: initChatbot_talkButton [OF Some] listenersWired_def getElementById_def)
qed

subsection \<open>What the other methods leave alone\<close>

lemma keepsWiring_refl: "keepsWiring s s"
  by (simp add: keepsWiring_def sameHandlers_def option.rel_refl)

lemma sameHandlers_trans: "sameHandlers a b \<Longrightarrow> sameHandlers b c \<Longrightarrow> sameHandlers a c"
  by (simp add: sameHandlers_def)

lemma keepsWiring_trans:
  assumes "keepsWiring s t" and "keepsWiring t u"
  shows "keepsWiring s u"
proof -
  have "rel_option sameHandlers (document s i) (document u i)" for i
  proof -
    from assms have "rel_option sameHandlers (document s i) (document t i)"
      and "rel_option sameHandlers (document t i) (document u i)"
      by (simp_all add: keepsWiring_def)
    then show ?thesis
      by (cases "document s i"; cases "document t i"; cases "document u i")
         (auto intro: sameHandlers_trans)
  qed
  with assms show ?thesis
    by (simp add: keepsWiring_def)
qed

lemma andThen_keepsWiring:
  assumes "keepsWiring s (state_of x)" and "\<And>t. keepsWiring t (state_of (f t))"
  shows "keepsWiring s (state_of (andThen x f))"
proof (cases x)
  case (Returned t)
  with assms(1) assms(2) [of t] show ?thesis
    by (auto intro: keepsWiring_trans)
next
  case (Threw e t)
  with assms(1) show ?thesis by simp
qed

lemma updateElement_keepsWiring:
  assumes "\<And>el. sameHandlers el (f el)"
  shows "keepsWiring s (updateElement r f s)"
  using assms
  by (cases "document s r") (simp_all add: keepsWiring_def updateElement_def option.rel_refl sameHandlers_def)

lemma keepsWiring_fields:
  assumes "document s' = document s" and "map_option listeners (this_lex s') = map_option listeners (this_lex s)"
    and "messageContainerEl s' = messageContainerEl s" and "transcriptTextEl s' = transcriptTextEl s"
  shows "keepsWiring s s'"
  using assms by (simp add: keepsWiring_def sameHandlers_def option.rel_refl)

lemma lexCall_keepsWiring: "keepsWiring s (state_of (lexCall c s))"
  by (cases "this_lex s") (simp_all add: lexCall_def keepsWiring_fields)

lemma consoleLog_keepsWiring: "keepsWiring s (consoleLog x s)"
  by (simp add: consoleLog_def keepsWiring_fields)

lemma play_keepsWiring: "keepsWiring s (play x s)"
  by (simp add: play_def keepsWiring_fields)

lemma startMainExperience_keepsWiring: "keepsWiring s (state_of (startMainExperience s))"
  by (simp add: startMainExperience_def play_def showUiScreen_def keepsWiring_fields)

lemma begin_keepsWiring: "keepsWiring s (state_of (acquireMicrophoneAccess_begin s))"
  by (cases "this_lex s")
     (simp_all add: acquireMicrophoneAccess_begin_def acquireMicrophoneAccess_catch_def
        lexCall_def showUiScreen_def Let_def keepsWiring_fields)

lemma catch_keepsWiring: "keepsWiring s (state_of (acquireMicrophoneAccess_catch e s))"
  by (cases e)
     (simp_all add: acquireMicrophoneAccess_catch_def showUiScreen_def keepsWiring_fields)

lemma resume_keepsWiring: "keepsWiring s (state_of (acquireMicrophoneAccess_resume r s))"
  by (cases r)
     (simp_all add: catch_keepsWiring consoleLog_def showUiScreen_def keepsWiring_fields)

lemma hideUserMessages_keepsWiring: "keepsWiring s (state_of (hideUserMessages s))"
  by (cases "messageContainerEl s")
     (simp_all add: hideUserMessages_def keepsWiring_refl updateElement_keepsWiring sameHandlers_def)

lemma displayProcessingMessage_keepsWiring: "keepsWiring s (state_of (displayProcessingMessage s))"
  by (cases "messageContainerEl s")
     (simp_all add: displayProcessingMessage_def keepsWiring_refl updateElement_keepsWiring sameHandlers_def)

lemma displaySpeechInputTranscript_keepsWiring:
  "keepsWiring s (state_of (displaySpeechInputTranscript x s))"
proof (cases "transcriptTextEl s")
  case None
  then show ?thesis by (simp add: displaySpeechInputTranscript_def keepsWiring_refl)
next
  case (Some t)
  let ?s1 = "updateElement t (\<lambda>el. el\<lparr>innerText := [0x201C] @ x @ [0x201D]\<rparr>) s"
  have k1: "keepsWiring s ?s1"
    by (simp add: updateElement_keepsWiring sameHandlers_def)
  show ?thesis
  proof (cases "messageContainerEl ?s1")
    case None
    with Some k1 show ?thesis by (simp add: displaySpeechInputTranscript_def Let_def)
  next
    case (Some mc)
    have "keepsWiring ?s1 (updateElement mc
            (\<lambda>el. el\<lparr>classList := classList_add ''showingMessage'' (classList el)\<rparr>) ?s1)"
      by (simp add: updateElement_keepsWiring sameHandlers_def)
    with k1 have "keepsWiring s (updateElement mc
            (\<lambda>el. el\<lparr>classList := classList_add ''showingMessage'' (classList el)\<rparr>) ?s1)"
      by (rule keepsWiring_trans)
    with Some \<open>transcriptTextEl s = Some t\<close> show ?thesis
      by (simp add: displaySpeechInputTranscript_def Let_def)
  qed
qed

lemma handleLexResponse_keepsWiring: "keepsWiring s (state_of (handleLexResponse p s))"
proof -
  let ?s0 = "consoleLog (LogResponse p) s"
  have k0: "keepsWiring s ?s0" by (rule consoleLog_keepsWiring)
  show ?thesis
  proof (cases "messageContainerEl ?s0")
    case None
    with k0 show ?thesis by (simp add: handleLexResponse_def Let_def)
  next
    case (Some mc)
    let ?s1 = "updateElement mc
                 (\<lambda>el. el\<lparr>classList := classList_remove ''processing'' (classList el)\<rparr>) ?s0"
    have "keepsWiring ?s0 ?s1" by (simp add: updateElement_keepsWiring sameHandlers_def)
    with k0 have k1: "keepsWiring s ?s1" by (rule keepsWiring_trans)
    show ?thesis
    proof (cases p)
      case None
      with Some k1 show ?thesis by (simp add: handleLexResponse_def Let_def)
    next
      case (Some r)
      have "keepsWiring s (state_of (andThen (displaySpeechInputTranscript (inputTranscript r) ?s1)
              (\<lambda>s2. Returned (play (message r) s2))))"
      proof (rule andThen_keepsWiring)
        show "keepsWiring s (state_of (displaySpeechInputTranscript (inputTranscript r) ?s1))"
          using k1 displaySpeechInputTranscript_keepsWiring by (rule keepsWiring_trans)
      next
        fix t show "keepsWiring t (state_of (Returned (play (message r) t)))"
          by (simp add: play_keepsWiring)
      qed
      with Some \<open>messageContainerEl ?s0 = Some mc\<close> show ?thesis
        by (simp add: handleLexResponse_def Let_def)
    qed
  qed
qed

lemma run_handler_keepsWiring: "keepsWiring s (state_of (run_handler h p s))"
proof (cases h)
  case OnTalkMouseDown
  have "keepsWiring s (consoleLog (LogText ''Begin recording'') s)" by (rule consoleLog_keepsWiring)
  then show ?thesis unfolding OnTalkMouseDown run_handler.simps
    using lexCall_keepsWiring by (rule keepsWiring_trans)
next
  case OnTalkMouseUp
  have "keepsWiring s (consoleLog (LogText ''End recording'') s)" by (rule consoleLog_keepsWiring)
  then show ?thesis unfolding OnTalkMouseUp run_handler.simps
    using lexCall_keepsWiring by (rule keepsWiring_trans)
qed (simp_all add: startMainExperience_keepsWiring begin_keepsWiring handleLexResponse_keepsWiring
       hideUserMessages_keepsWiring displayProcessingMessage_keepsWiring)

lemma run_listeners_keepsWiring: "keepsWiring s (state_of (run_listeners hs p s))"
proof (induction hs arbitrary: s)
  case Nil
  show ?case by (simp add: keepsWiring_refl)
next
  case (Cons h hs)
  show ?case unfolding run_listeners.simps
    by (rule andThen_keepsWiring) (rule run_handler_keepsWiring, rule Cons.IH)
qed

subsection \<open>The wiring of every reachable state\<close>

lemma keepsWiring_handlersWired:
  assumes "keepsWiring s s'" and "handlersWired s"
  shows "handlersWired s'"
  unfolding handlersWired_def
proof (intro allI impI)
  fix i el'
  assume d': "document s' i = Some el'"
  from assms(1) have "rel_option sameHandlers (document s i) (document s' i)"
    by (simp add: keepsWiring_def)
  with d' obtain el where d: "document s i = Some el" and sh: "sameHandlers el el'"
    by (cases "document s i") auto
  from assms(2) d have
    "(onclick el = None \<or> (i = ''startButton'' \<and> onclick el = Some OnStartClick) \<or>
           (i = ''enableMicButton'' \<and> onclick el = Some OnEnableMicClick)) \<and>
        (onmousedown el = None \<or>
           (i = ''talkButton'' \<and> onmousedown el = Some OnTalkMouseDown)) \<and>
        (onmouseup el = None \<or>
           (i = ''talkButton'' \<and> onmouseup el = Some OnTalkMouseUp))"
    unfolding handlersWired_def by blast
  with sh show "(onclick el' = None \<or> (i = ''startButton'' \<and> onclick el' = Some OnStartClick) \<or>
           (i = ''enableMicButton'' \<and> onclick el' = Some OnEnableMicClick)) \<and>
        (onmousedown el' = None \<or>
           (i = ''talkButton'' \<and> onmousedown el' = Some OnTalkMouseDown)) \<and>
        (onmouseup el' = None \<or>
           (i = ''talkButton'' \<and> onmouseup el' = Some OnTalkMouseUp))"
    by (simp add: sameHandlers_def)
qed

lemma keepsWiring_document_None:
  assumes "keepsWiring s s'"
  shows "(document s' i = None) = (document s i = None)"
proof -
  from assms have "rel_option sameHandlers (document s i) (document s' i)"
    by (simp add: keepsWiring_def)
  then show ?thesis by (cases "document s i"; cases "document s' i") auto
qed

lemma keepsWiring_getElementById:
  assumes "keepsWiring s s'"
  shows "getElementById s' i = getElementById s i"
  using keepsWiring_document_None [OF assms, of i]
  by (cases "document s i"; cases "document s' i") (auto simp: getElementById_def)

lemma keepsWiring_listenersWired:
  assumes "keepsWiring s s'" and "listenersWired s"
  shows "listenersWired s'"
  unfolding listenersWired_def
proof (intro allI impI)
  fix l' assume l': "this_lex s' = Some l'"
  from assms(1) have ml: "map_option listeners (this_lex s') = map_option listeners (this_lex s)"
    and mc: "messageContainerEl s' = messageContainerEl s"
    and tt: "transcriptTextEl s' = transcriptTextEl s"
    by (simp_all add: keepsWiring_def)
  from ml l' obtain l where l: "this_lex s = Some l" and ll: "listeners l = listeners l'"
    by (cases "this_lex s") auto
  from assms(2) l have
    "if document s ''talkButton'' = None
         then listeners l = [(lexResponseReady, OnLexResponseReady_initChatbot)]
         else listeners l = registeredListeners \<and>
              messageContainerEl s = getElementById s ''userMessageContainer'' \<and>
              transcriptTextEl s = getElementById s ''transcriptText''"
    unfolding listenersWired_def by blast
  then show "if document s' ''talkButton'' = None
         then listeners l' = [(lexResponseReady, OnLexResponseReady_initChatbot)]
         else listeners l' = registeredListeners \<and>
              messageContainerEl s' = getElementById s' ''userMessageContainer'' \<and>
              transcriptTextEl s' = getElementById s' ''transcriptText''"
    by (simp add: ll [symmetric] mc tt keepsWiring_getElementById [OF assms(1)]
          keepsWiring_document_None [OF assms(1)] split: if_splits)
qed

lemma setOnclick_None:
  "document s i = None \<Longrightarrow> setOnclick i h s = Threw TypeError s"
  by (simp add: setOnclick_def getElementById_def)

lemma setOnclick_Some:
  "document s i = Some el \<Longrightarrow>
     setOnclick i h s = Returned (s\<lparr>document := (document s)(i \<mapsto> el\<lparr>onclick := Some h\<rparr>)\<rparr>)"
  by (simp add: setOnclick_def getElementById_def updateElement_def)

lemma setOnclick_handlersWired:
  assumes "handlersWired s"
    and "(i = ''startButton'' \<and> h = OnStartClick) \<or> (i = ''enableMicButton'' \<and> h = OnEnableMicClick)"
  shows "handlersWired (state_of (setOnclick i h s))"
proof (cases "document s i")
  case None
  with assms(1) show ?thesis by (simp add: setOnclick_None)
next
  case (Some el)
  from assms(1) Some assms(2) have "onmousedown el = None" "onmouseup el = None"
    unfolding handlersWired_def by fastforce+
  with assms show ?thesis
    by (auto simp: setOnclick_Some [OF Some] handlersWired_def)
qed

lemma setOnclick_listenersWired:
  assumes "listenersWired s"
  shows "listenersWired (state_of (setOnclick i h s))"
proof (cases "document s i")
  case None
  with assms show ?thesis by (simp add: setOnclick_None)
next
  case (Some el)
  with assms show ?thesis
    by (auto simp: setOnclick_Some [OF Some] listenersWired_def getElementById_def)
qed

lemma initUi_handlersWired:
  assumes "handlersWired s"
  shows "handlersWired (state_of (initUi s))"
proof (cases "locationHost s = ''''")
  case True
  with assms show ?thesis by (simp add: initUi_def alert_def handlersWired_def)
next
  case False
  have 1: "handlersWired (state_of (setOnclick ''startButton'' OnStartClick s))"
    using assms by (rule setOnclick_handlersWired) simp
  show ?thesis
  proof (cases "setOnclick ''startButton'' OnStartClick s")
    case (Returned t)
    with 1 have "handlersWired t" by simp
    then have "handlersWired (state_of (setOnclick ''enableMicButton'' OnEnableMicClick t))"
      by (rule setOnclick_handlersWired) simp
    with False Returned show ?thesis by (simp add: initUi_def)
  next
    case (Threw e t)
    with 1 False show ?thesis by (simp add: initUi_def)
  qed
qed

lemma initUi_listenersWired:
  assumes "listenersWired s"
  shows "listenersWired (state_of (initUi s))"
proof (cases "locationHost s = ''''")
  case True
  with assms show ?thesis by (simp add: initUi_def alert_def listenersWired_def getElementById_def)
next
  case False
  have 1: "listenersWired (state_of (setOnclick ''startButton'' OnStartClick s))"
    using assms by (rule setOnclick_listenersWired)
  show ?thesis
  proof (cases "setOnclick ''startButton'' OnStartClick s")
    case (Returned t)
    with 1 have "listenersWired t" by simp
    then have "listenersWired (state_of (setOnclick ''enableMicButton'' OnEnableMicClick t))"
      by (rule setOnclick_listenersWired)
    with False Returned show ?thesis by (simp add: initUi_def)
  next
    case (Threw e t)
    with 1 False show ?thesis by (simp add: initUi_def)
  qed
qed

lemma onStart_callback_wired:
  assumes "handlersWired s"
  shows "handlersWired (state_of (onStart_callback s)) \<and> listenersWired (state_of (onStart_callback s))"
proof (cases "initChatbot s")
  case (Threw e t)
  with initChatbot_handlersWired [OF assms] initChatbot_listenersWired [of s]
  show ?thesis by (simp add: onStart_callback_def)
next
  case (Returned t)
  with initChatbot_handlersWired [OF assms] initChatbot_listenersWired [of s]
  have t: "handlersWired t" "listenersWired t" by simp_all
  show ?thesis
  proof (cases "initUi t")
    case (Threw e u)
    with initUi_handlersWired [OF t(1)] initUi_listenersWired [OF t(2)] Returned
    show ?thesis by (simp add: onStart_callback_def)
  next
    case Returned2: (Returned u)
    with initUi_handlersWired [OF t(1)] initUi_listenersWired [OF t(2)]
    have u: "handlersWired u" "listenersWired u" by simp_all
    have "keepsWiring u (state_of (acquireMicrophoneAccess_begin u))"
      by (rule begin_keepsWiring)
    with u have "handlersWired (state_of (acquireMicrophoneAccess_begin u))"
      "listenersWired (state_of (acquireMicrophoneAccess_begin u))"
      by (auto intro: keepsWiring_handlersWired keepsWiring_listenersWired)
    with Returned Returned2 show ?thesis by (simp add: onStart_callback_def)
  qed
qed

lemma fire_keepsWiring:
  assumes "ev \<noteq> TimerFired"
  shows "keepsWiring s (state_of (fire ev s))"
proof (cases ev)
  case TimerFired
  with assms show ?thesis by simp
next
  case (MicSettled r)
  have "keepsWiring s (s\<lparr>pendingMic := pendingMic s - 1\<rparr>)"
    by (simp add: keepsWiring_fields)
  then have "keepsWiring s (state_of (acquireMicrophoneAccess_resume r (s\<lparr>pendingMic := pendingMic s - 1\<rparr>)))"
    using resume_keepsWiring by (rule keepsWiring_trans)
  with MicSettled show ?thesis by (simp add: keepsWiring_refl)
next
  case (Click i)
  then show ?thesis
    by (simp add: dispatch_def keepsWiring_refl run_handler_keepsWiring split: option.splits)
next
  case (MouseDown i)
  then show ?thesis
    by (simp add: dispatch_def keepsWiring_refl run_handler_keepsWiring split: option.splits)
next
  case (MouseUp i)
  then show ?thesis
    by (simp add: dispatch_def keepsWiring_refl run_handler_keepsWiring split: option.splits)
next
  case (KeyEvent k t)
  then show ?thesis
    by (simp add: keyboardEvent_def keyDownHandler_def talkKeyDownHandler_def talkKeyUpHandler_def
          keepsWiring_refl begin_keepsWiring consoleLog_keepsWiring)
next
  case (LexEmit e)
  then show ?thesis
    by (simp add: emit_def keepsWiring_refl run_listeners_keepsWiring split: option.splits)
qed

lemma fire_wired:
  assumes "handlersWired s" and "listenersWired s"
  shows "handlersWired (state_of (fire ev s)) \<and> listenersWired (state_of (fire ev s))"
proof (cases "ev = TimerFired")
  case False
  from fire_keepsWiring [OF False] assms show ?thesis
    by (blast intro: keepsWiring_handlersWired keepsWiring_listenersWired)
next
  case True
  have "handlersWired (s\<lparr>startTimers := startTimers s - 1\<rparr>)"
    using assms(1) by (simp add: handlersWired_def)
  from onStart_callback_wired [OF this] True assms show ?thesis by simp
qed

lemma reachable_wired: "reachable s \<Longrightarrow> handlersWired s \<and> listenersWired s"
proof (induction rule: reachable.induct)
  case (started s)
  then show ?case
    by (simp add: pageLoaded_def onStart_def handlersWired_def listenersWired_def)
next
  case (fired s ev)
  then show ?case by (simp add: fire_wired)
qed

subsection \<open>Which events show the chatbot UI screen\<close>

lemma noChatbotUiScreen_refl: "noChatbotUiScreen s s"
  by (simp add: noChatbotUiScreen_def)

lemma noChatbotUiScreen_same:
  "shownScreens s' = shownScreens s \<Longrightarrow> noChatbotUiScreen s s'"
  by (simp add: noChatbotUiScreen_def)

lemma noChatbotUiScreen_trans:
  assumes "noChatbotUiScreen s t" and "noChatbotUiScreen t u"
  shows "noChatbotUiScreen s u"
proof -
  from assms obtain xs ys where "shownScreens t = shownScreens s @ xs" "''chatbotUiScreen'' \<notin> set xs"
    "shownScreens u = shownScreens t @ ys" "''chatbotUiScreen'' \<notin> set ys"
    unfolding noChatbotUiScreen_def by blast
  then have "shownScreens u = shownScreens s @ (xs @ ys) \<and> ''chatbotUiScreen'' \<notin> set (xs @ ys)"
    by simp
  then show ?thesis unfolding noChatbotUiScreen_def by blast
qed

lemma andThen_noChatbotUiScreen:
  assumes "noChatbotUiScreen s (state_of x)" and "\<And>t. noChatbotUiScreen t (state_of (f t))"
  shows "noChatbotUiScreen s (state_of (andThen x f))"
proof (cases x)
  case (Returned t)
  with assms(1) assms(2) [of t] show ?thesis
    by (auto intro: noChatbotUiScreen_trans)
next
  case (Threw e t)
  with assms(1) show ?thesis by simp
qed

lemma lexCall_shownScreens: "shownScreens (state_of (lexCall c s)) = shownScreens s"
  by (cases "this_lex s") (simp_all add: lexCall_def)

lemma hideUserMessages_shownScreens: "shownScreens (state_of (hideUserMessages s)) = shownScreens s"
  by (cases "messageContainerEl s") (simp_all add: hideUserMessages_def updateElement_def)

lemma displayProcessingMessage_shownScreens:
  "shownScreens (state_of (displayProcessingMessage s)) = shownScreens s"
  by (cases "messageContainerEl s") (simp_all add: displayProcessingMessage_def updateElement_def)

lemma displaySpeechInputTranscript_shownScreens:
  "shownScreens (state_of (displaySpeechInputTranscript x s)) = shownScreens s"
  by (cases "transcriptTextEl s"; cases "messageContainerEl s")
     (simp_all add: displaySpeechInputTranscript_def updateElement_def Let_def)

lemma handleLexResponse_shownScreens:
  "shownScreens (state_of (handleLexResponse p s)) = shownScreens s"
proof (cases "messageContainerEl s")
  case None
  then show ?thesis by (simp add: handleLexResponse_def consoleLog_def Let_def)
next
  case (Some mc)
  show ?thesis
  proof (cases p)
    case None
    with Some show ?thesis
      by (simp add: handleLexResponse_def consoleLog_def updateElement_def Let_def)
  next
    case (Some r)
    let ?s1 = "updateElement mc
                 (\<lambda>el. el\<lparr>classList := classList_remove ''processing'' (classList el)\<rparr>)
                 (consoleLog (LogResponse p) s)"
    have "shownScreens (state_of (andThen (displaySpeechInputTranscript (inputTranscript r) ?s1)
              (\<lambda>s2. Returned (play (message r) s2)))) = shownScreens ?s1"
      using displaySpeechInputTranscript_shownScreens [of "inputTranscript r" ?s1]
      by (cases "displaySpeechInputTranscript (inputTranscript r) ?s1") (simp_all add: play_def)
    with Some \<open>messageContainerEl s = Some mc\<close> show ?thesis
      by (simp add: handleLexResponse_def consoleLog_def updateElement_def Let_def)
  qed
qed

lemma begin_noChatbotUiScreen:
  "noChatbotUiScreen s (state_of (acquireMicrophoneAccess_begin s))"
  by (cases "this_lex s")
     (simp_all add: acquireMicrophoneAccess_begin_def acquireMicrophoneAccess_catch_def
        lexCall_def showUiScreen_def Let_def noChatbotUiScreen_def)

lemma catch_noChatbotUiScreen:
  "noChatbotUiScreen s (state_of (acquireMicrophoneAccess_catch e s))"
  by (cases e)
     (simp_all add: acquireMicrophoneAccess_catch_def showUiScreen_def noChatbotUiScreen_def)

lemma resume_noChatbotUiScreen:
  "noChatbotUiScreen s (state_of (acquireMicrophoneAccess_resume r s))"
proof (cases r)
  case Fulfilled
  then show ?thesis
    by (simp add: consoleLog_def showUiScreen_def noChatbotUiScreen_def)
next
  case (Rejected e)
  then show ?thesis
    by (simp add: catch_noChatbotUiScreen)
qed

lemma run_handler_noChatbotUiScreen:
  assumes "h \<noteq> OnStartClick"
  shows "noChatbotUiScreen s (state_of (run_handler h p s))"
  using assms
  by (cases h)
     (simp_all add: begin_noChatbotUiScreen noChatbotUiScreen_same lexCall_shownScreens
        consoleLog_def handleLexResponse_shownScreens hideUserMessages_shownScreens
        displayProcessingMessage_shownScreens)

lemma run_listeners_noChatbotUiScreen:
  assumes "OnStartClick \<notin> set hs"
  shows "noChatbotUiScreen s (state_of (run_listeners hs p s))"
  using assms
proof (induction hs arbitrary: s)
  case Nil
  show ?case by (simp add: noChatbotUiScreen_refl)
next
  case (Cons h hs)
  then have h: "h \<noteq> OnStartClick" and hs: "OnStartClick \<notin> set hs" by auto
  show ?case unfolding run_listeners.simps
    by (rule andThen_noChatbotUiScreen)
       (rule run_handler_noChatbotUiScreen [OF h], rule Cons.IH [OF hs])
qed

lemma initChatbot_shownScreens: "shownScreens (state_of (initChatbot s)) = shownScreens s"
  by (cases "document s ''talkButton''")
     (simp_all add: initChatbot_no_talkButton initChatbot_talkButton)

lemma setOnclick_shownScreens: "shownScreens (state_of (setOnclick i h s)) = shownScreens s"
  by (cases "document s i") (simp_all add: setOnclick_None setOnclick_Some)

lemma initUi_shownScreens: "shownScreens (state_of (initUi s)) = shownScreens s"
proof (cases "locationHost s = ''''")
  case True
  then show ?thesis by (simp add: initUi_def alert_def)
next
  case False
  show ?thesis
  proof (cases "setOnclick ''startButton'' OnStartClick s")
    case (Returned t)
    with False setOnclick_shownScreens [of "''startButton''" OnStartClick s]
      setOnclick_shownScreens [of "''enableMicButton''" OnEnableMicClick t]
    show ?thesis by (simp add: initUi_def)
  next
    case (Threw e t)
    with False setOnclick_shownScreens [of "''startButton''" OnStartClick s]
    show ?thesis by (simp add: initUi_def)
  qed
qed

lemma onStart_callback_noChatbotUiScreen:
  "noChatbotUiScreen s (state_of (onStart_callback s))"
  unfolding onStart_callback_def
proof (rule andThen_noChatbotUiScreen)
  show "noChatbotUiScreen s (state_of (initChatbot s))"
    by (simp add: noChatbotUiScreen_same initChatbot_shownScreens)
next
  fix t
  show "noChatbotUiScreen t (state_of (andThen (initUi t) acquireMicrophoneAccess_begin))"
    by (rule andThen_noChatbotUiScreen)
       (simp_all add: noChatbotUiScreen_same initUi_shownScreens begin_noChatbotUiScreen)
qed

lemma dispatch_noChatbotUiScreen:
  assumes "\<And>el. document s i = Some el \<Longrightarrow> prop el \<noteq> Some OnStartClick"
  shows "noChatbotUiScreen s (state_of (dispatch prop i s))"
proof (cases "document s i")
  case None
  then show ?thesis by (simp add: dispatch_def noChatbotUiScreen_refl)
next
  case (Some el)
  show ?thesis
  proof (cases "prop el")
    case None
    with Some show ?thesis by (simp add: dispatch_def noChatbotUiScreen_refl)
  next
    case (Some h)
    with assms [OF \<open>document s i = Some el\<close>] have "h \<noteq> OnStartClick" by auto
    with Some \<open>document s i = Some el\<close> show ?thesis
      by (simp add: dispatch_def run_handler_noChatbotUiScreen)
  qed
qed

lemma handlersWiredD:
  assumes "handlersWired s" and "document s i = Some el"
  shows "(onclick el = Some OnStartClick \<longrightarrow> i = ''startButton'') \<and>
         onmousedown el \<noteq> Some OnStartClick \<and> onmouseup el \<noteq> Some OnStartClick"
  using assms unfolding handlersWired_def by fastforce

lemma listenersWired_no_OnStartClick:
  assumes "listenersWired s" and "this_lex s = Some l"
  shows "OnStartClick \<notin> snd ` set (listeners l)"
proof -
  from assms have "listeners l = [(lexResponseReady, OnLexResponseReady_initChatbot)] \<or>
      listeners l = registeredListeners"
    unfolding listenersWired_def by (auto split: if_splits)
  then show ?thesis by (auto simp: registeredListeners_def)
qed

lemma fire_noChatbotUiScreen:
  assumes "reachable s" and "ev \<noteq> Click ''startButton''"
  shows "noChatbotUiScreen s (state_of (fire ev s))"
proof -
  from assms(1) have hw: "handlersWired s" and lw: "listenersWired s"
    by (simp_all add: reachable_wired)
  show ?thesis
  proof (cases ev)
    case TimerFired
    have "noChatbotUiScreen s (s\<lparr>startTimers := startTimers s - 1\<rparr>)"
      by (simp add: noChatbotUiScreen_same)
    then have "noChatbotUiScreen s (state_of (onStart_callback (s\<lparr>startTimers := startTimers s - 1\<rparr>)))"
      using onStart_callback_noChatbotUiScreen by (rule noChatbotUiScreen_trans)
    with TimerFired show ?thesis by (simp add: noChatbotUiScreen_refl)
  next
    case (MicSettled r)
    have "noChatbotUiScreen s (s\<lparr>pendingMic := pendingMic s - 1\<rparr>)"
      by (simp add: noChatbotUiScreen_same)
    then have "noChatbotUiScreen s
        (state_of (acquireMicrophoneAccess_resume r (s\<lparr>pendingMic := pendingMic s - 1\<rparr>)))"
      using resume_noChatbotUiScreen by (rule noChatbotUiScreen_trans)
    with MicSettled show ?thesis by (simp add: noChatbotUiScreen_refl)
  next
    case (Click i)
    with assms(2) have "i \<noteq> ''startButton''" by simp
    with hw have "\<And>el. document s i = Some el \<Longrightarrow> onclick el \<noteq> Some OnStartClick"
      using handlersWiredD by blast
    with Click show ?thesis by (simp add: dispatch_noChatbotUiScreen)
  next
    case (MouseDown i)
    from hw have "\<And>el. document s i = Some el \<Longrightarrow> onmousedown el \<noteq> Some OnStartClick"
      using handlersWiredD by blast
    with MouseDown show ?thesis by (simp add: dispatch_noChatbotUiScreen)
  next
    case (MouseUp i)
    from hw have "\<And>el. document s i = Some el \<Longrightarrow> onmouseup el \<noteq> Some OnStartClick"
      using handlersWiredD by blast
    with MouseUp show ?thesis by (simp add: dispatch_noChatbotUiScreen)
  next
    case (KeyEvent k t)
    then show ?thesis
      by (simp add: keyboardEvent_def keyDownHandler_def talkKeyDownHandler_def
            talkKeyUpHandler_def noChatbotUiScreen_refl begin_noChatbotUiScreen
            noChatbotUiScreen_same consoleLog_def)
  next
    case (LexEmit e)
    show ?thesis
    proof (cases "this_lex s")
      case None
      with LexEmit show ?thesis by (simp add: emit_def noChatbotUiScreen_refl)
    next
      case (Some l)
      from listenersWired_no_OnStartClick [OF lw Some]
      have "OnStartClick \<notin> set (map snd (filter (\<lambda>(n, h). n = event_name e) (listeners l)))"
        by auto
      with LexEmit Some show ?thesis
        by (simp add: emit_def run_listeners_noChatbotUiScreen)
    qed
  qed
qed

subsection \<open>The example page, started\<close>

lemma examplePage_talkButton: "document (examplePage h) ''talkButton'' = Some blankElement"
  by (simp add: examplePage_def uiElementIds_def)

lemmas example_defs = exampleStarted_def onStart_def examplePage_def uiElementIds_def blankElement_def
  onStart_callback_def initChatbot_def initConversationManagement_def initUi_def setOnclick_def
  acquireMicrophoneAccess_begin_def

lemma exampleStarted_fields:
  "this_lex (exampleStarted h) =
     Some \<lparr>botName = ''BookTrip'', botAlias = ''Dev'', listeners = registeredListeners,
           calls = [EnableMicInput]\<rparr>"
  "messageContainerEl (exampleStarted h) = Some ''userMessageContainer''"
  "transcriptTextEl (exampleStarted h) = Some ''transcriptText''"
  "shownScreens (exampleStarted h) = [''micInitScreen'']"
  "spoken (exampleStarted h) = []"
  "pendingMic (exampleStarted h) = 1"
  "locationHost (exampleStarted h) = h"
  "alerts (exampleStarted h) = (if h = '''' then [previewNotice] else [])"
  by (simp_all add: example_defs platform_defs registeredListeners_def Let_def)

lemma exampleStarted_document:
  "document (exampleStarted h) ''userMessageContainer'' = Some blankElement"
  "document (exampleStarted h) ''transcriptText'' = Some blankElement"
  "document (exampleStarted h) ''talkButton'' =
     Some (blankElement\<lparr>onmousedown := Some OnTalkMouseDown, onmouseup := Some OnTalkMouseUp\<rparr>)"
  "document (exampleStarted h) ''startButton'' =
     Some (blankElement\<lparr>onclick := if h = '''' then None else Some OnStartClick\<rparr>)"
  "document (exampleStarted h) ''enableMicButton'' =
     Some (blankElement\<lparr>onclick := if h = '''' then None else Some OnEnableMicClick\<rparr>)"
  by (simp_all add: example_defs platform_defs Let_def)

lemma pageLoaded_examplePage: "pageLoaded (examplePage h)"
  by (auto simp: pageLoaded_def examplePage_def uiElementIds_def blankElement_def split: if_splits)

lemma reachable_exampleStarted: "reachable (exampleStarted h)"
  unfolding exampleStarted_def
  by (intro reachable.fired reachable.started pageLoaded_examplePage)

text \<open>
  Initialisation is complete in every reachable state in which the voice feature exists,
  on a page that has the talk button, the message container and the transcript element.
\<close>

lemma reachable_initialised:
  assumes "reachable s" and "this_lex s \<noteq> None" and "document s ''talkButton'' \<noteq> None"
    and "document s ''userMessageContainer'' \<noteq> None" and "document s ''transcriptText'' \<noteq> None"
  shows "initialised s"
proof -
  from assms(1) have "listenersWired s" by (simp add: reachable_wired)
  with assms(2-) show ?thesis
    by (auto simp: listenersWired_def initialised_def uiReady_def getElementById_def)
qed

lemma initialised_exampleStarted: "initialised (exampleStarted h)"
  by (simp add: initialised_def uiReady_def exampleStarted_fields exampleStarted_document)

lemma run_listeners_single: "run_listeners [h] p = run_handler h p"
proof
  fix s show "run_listeners [h] p s = run_handler h p s"
    by (cases "run_handler h p s") simp_all
qed

text \<open>
  The uninterrupted run of \<open>acquireMicrophoneAccess\<close> is its synchronous part followed
  by the delivery of the settlement; without a voice feature it is the synchronous part
  alone, which ends in the \<open>catch\<close> block.
\<close>

lemma acquireMicrophoneAccess_begin_resume:
  "acquireMicrophoneAccess r s =
     (if this_lex s = None then acquireMicrophoneAccess_begin s
      else andThen (acquireMicrophoneAccess_begin s) (fire (MicSettled r)))"
  by (cases "this_lex s")
     (simp_all add: acquireMicrophoneAccess_def acquireMicrophoneAccess_begin_def lexCall_def
        showUiScreen_def Let_def)

text \<open>
  A call of a closure is what \<open>run_handler\<close> does to the state, with the value the call
  evaluates to. The closure of the enable-mic button is the one that gives a promise, and
  with a voice feature it leaves an acquisition suspended.
\<close>

lemma acquireMicrophoneAccess_begin_returns:
  "acquireMicrophoneAccess_begin s = Returned (state_of (acquireMicrophoneAccess_begin s))"
  by (cases "this_lex s")
     (simp_all add: acquireMicrophoneAccess_begin_def acquireMicrophoneAccess_catch_def
        lexCall_def showUiScreen_def Let_def utf16_def)

lemma dropValue_voidCall: "dropValue (voidCall x) = x"
  by (cases x) simp_all

lemma dropValue_call_handler: "dropValue (call_handler h p s) = run_handler h p s"
proof (cases h)
  case OnEnableMicClick
  then show ?thesis
    using acquireMicrophoneAccess_begin_returns [of s]
    by (cases "acquireMicrophoneAccess_begin s") simp_all
qed (simp_all add: dropValue_voidCall)

lemma call_handler_OnEnableMicClick:
  assumes "this_lex s \<noteq> None"
  shows "\<exists>s'. call_handler OnEnableMicClick p s = Normal Promise s' \<and>
           pendingMic s' = Suc (pendingMic s)"
  using assms
  by (auto simp: acquireMicrophoneAccess_begin_def lexCall_def showUiScreen_def Let_def)

section \<open>The claims\<close>

subsection \<open>C1: initialisation in the preview context\<close>

text \<open>
  The claim as written (no handler is bound and no microphone access is attempted when
  the location host is empty) fails on the example page: the timer callback calls
  \<open>initChatbot\<close> before \<open>initUi\<close> and \<open>acquireMicrophoneAccess\<close> after it, whatever
  \<open>initUi\<close> found, so the talk button gets its two mouse handlers and \<open>enableMicInput\<close> is
  called once.
\<close>

theorem initUi_preview_counterexample:
  "locationHost (examplePage '''') = '''' \<and>
   handlerBindings (examplePage '''') uiElementIds = 0 \<and>
   micAccessAttempts (examplePage '''') = 0 \<and>
   handlerBindings (exampleStarted '''') uiElementIds = 2 \<and>
   boundHandlers (exampleStarted '''') ''talkButton'' = [OnTalkMouseDown, OnTalkMouseUp] \<and>
   micAccessAttempts (exampleStarted '''') = 1"
  by (simp add: handlerBindings_def boundHandlers_def micAccessAttempts_def uiElementIds_def
        exampleStarted_fields exampleStarted_document)
     (simp add: examplePage_def uiElementIds_def blankElement_def)

text \<open>
  C1, as amended: with an empty location host, \<open>initUi\<close> binds no handler and only
  presents the blocking notice; the initialisation sequence on a page with a talk button
  then returns having presented the notice, changed no element but the talk button, whose
  mouse-down and mouse-up handlers it has bound, and made one microphone-access attempt.
\<close>

theorem initUi_preview:
  assumes "locationHost s = ''''"
  shows "initUi s = Returned (s\<lparr>alerts := alerts s @ [previewNotice]\<rparr>) \<and>
         (\<forall>el. document s ''talkButton'' = Some el \<longrightarrow>
            (\<exists>s'. onStart_callback s = Returned s' \<and>
               alerts s' = alerts s @ [previewNotice] \<and>
               document s' = (document s)(''talkButton'' \<mapsto>
                 el\<lparr>onmousedown := Some OnTalkMouseDown, onmouseup := Some OnTalkMouseUp\<rparr>) \<and>
               micAccessAttempts s' = 1 \<and>
               shownScreens s' = shownScreens s @ [''micInitScreen'']))"
proof (intro conjI allI impI)
  show "initUi s = Returned (s\<lparr>alerts := alerts s @ [previewNotice]\<rparr>)"
    using assms by (simp add: initUi_def alert_def)
next
  fix el assume "document s ''talkButton'' = Some el"
  from initChatbot_talkButton [OF this] assms
  show "\<exists>s'. onStart_callback s = Returned s' \<and>
               alerts s' = alerts s @ [previewNotice] \<and>
               document s' = (document s)(''talkButton'' \<mapsto>
                 el\<lparr>onmousedown := Some OnTalkMouseDown, onmouseup := Some OnTalkMouseUp\<rparr>) \<and>
               micAccessAttempts s' = 1 \<and>
               shownScreens s' = shownScreens s @ [''micInitScreen'']"
    by (simp add: onStart_callback_def initUi_def alert_def acquireMicrophoneAccess_begin_def
          showUiScreen_def lexCall_def micAccessAttempts_def Let_def)
qed

theorem initUi_preview_witness:
  "locationHost (examplePage '''') = '''' \<and>
   initUi (examplePage '''') = Returned ((examplePage '''')\<lparr>alerts := [previewNotice]\<rparr>) \<and>
   document (examplePage '''') ''talkButton'' = Some blankElement \<and>
   alerts (state_of (onStart_callback (examplePage ''''))) = [previewNotice] \<and>
   micAccessAttempts (state_of (onStart_callback (examplePage ''''))) = 1"
proof -
  have h: "locationHost (examplePage '''') = ''''" by (simp add: examplePage_def)
  have a: "alerts (examplePage '''') = []" by (simp add: examplePage_def)
  from initUi_preview [OF h] examplePage_talkButton [of "''''"] h a show ?thesis
    by auto
qed

subsection \<open>C2: the screen after microphone acquisition\<close>

text \<open>
  The claim as written (a failure with any other reason shows \<open>micDisabledScreen\<close>, and
  no exception is left unhandled) fails when \<open>enableMicInput\<close> is rejected with
  \<open>undefined\<close> or \<open>null\<close>: the \<open>catch\<close> block throws a \<open>TypeError\<close> on reading
  \<open>e.message\<close>, no screen is shown after \<open>micInitScreen\<close>, and nothing handles the
  exception.
\<close>

theorem acquireMicrophoneAccess_screen_counterexample:
  "this_lex (exampleStarted ''localhost'') \<noteq> None \<and>
   thrown (acquireMicrophoneAccess (Rejected Nullish) (exampleStarted ''localhost'')) =
     Some TypeError \<and>
   visibleScreen (state_of
     (acquireMicrophoneAccess (Rejected Nullish) (exampleStarted ''localhost''))) =
     Some ''micInitScreen'' \<and>
   thrown (fire (MicSettled (Rejected Nullish)) (exampleStarted ''localhost'')) =
     Some TypeError \<and>
   visibleScreen (state_of (fire (MicSettled (Rejected Nullish)) (exampleStarted ''localhost''))) =
     Some ''micInitScreen''"
  by (simp add: acquireMicrophoneAccess_def acquireMicrophoneAccess_catch_def lexCall_def
        showUiScreen_def visibleScreen_def exampleStarted_fields Let_def)

text \<open>
  C2, as amended: an invocation of \<open>acquireMicrophoneAccess\<close> returns when
  \<open>enableMicInput\<close> succeeds and when it fails with a reason other than \<open>undefined\<close> and
  \<open>null\<close> (no exception leaves it). Once the voice feature exists, the screen shown
  last is \<open>startScreen\<close> on success, \<open>micPermissionDismissedScreen\<close> when the reason's
  message is exactly \<open>Permission dismissed\<close>, and \<open>micDisabledScreen\<close> for any other
  such reason. The same holds when the settlement resumes a suspended acquisition in any
  later state.
\<close>

theorem acquireMicrophoneAccess_screen:
  "(\<exists>s'. acquireMicrophoneAccess Fulfilled s = Returned s') \<and>
   (e \<noteq> Nullish \<longrightarrow> (\<exists>s'. acquireMicrophoneAccess (Rejected e) s = Returned s')) \<and>
   (this_lex s \<noteq> None \<longrightarrow>
      visibleScreen (state_of (acquireMicrophoneAccess Fulfilled s)) = Some ''startScreen'' \<and>
      (e \<noteq> Nullish \<longrightarrow>
         visibleScreen (state_of (acquireMicrophoneAccess (Rejected e) s)) =
           Some (if thrown_message e = Inr (Some (utf16 ''Permission dismissed''))
                 then ''micPermissionDismissedScreen'' else ''micDisabledScreen''))) \<and>
   (0 < pendingMic t \<longrightarrow>
      (\<exists>t'. fire (MicSettled Fulfilled) t = Returned t') \<and>
      visibleScreen (state_of (fire (MicSettled Fulfilled) t)) = Some ''startScreen'' \<and>
      (e \<noteq> Nullish \<longrightarrow>
         (\<exists>t'. fire (MicSettled (Rejected e)) t = Returned t') \<and>
         visibleScreen (state_of (fire (MicSettled (Rejected e)) t)) =
           Some (if thrown_message e = Inr (Some (utf16 ''Permission dismissed''))
                 then ''micPermissionDismissedScreen'' else ''micDisabledScreen'')))"
proof (intro conjI impI)
  show "\<exists>s'. acquireMicrophoneAccess Fulfilled s = Returned s'"
    by (cases "this_lex s")
       (simp_all add: acquireMicrophoneAccess_def acquireMicrophoneAccess_catch_def lexCall_def
          showUiScreen_def Let_def utf16_def)
next
  assume "e \<noteq> Nullish"
  then show "\<exists>s'. acquireMicrophoneAccess (Rejected e) s = Returned s'"
    by (cases e; cases "this_lex s")
       (simp_all add: acquireMicrophoneAccess_def acquireMicrophoneAccess_catch_def lexCall_def
          showUiScreen_def Let_def utf16_def)
next
  assume "this_lex s \<noteq> None"
  then obtain l where "this_lex s = Some l" by auto
  then show "visibleScreen (state_of (acquireMicrophoneAccess Fulfilled s)) = Some ''startScreen''"
    by (simp add: acquireMicrophoneAccess_def visibleScreen_def lexCall_def showUiScreen_def
          consoleLog_def Let_def)
next
  assume "this_lex s \<noteq> None" and "e \<noteq> Nullish"
  then obtain l where "this_lex s = Some l" by auto
  with \<open>e \<noteq> Nullish\<close>
  show "visibleScreen (state_of (acquireMicrophoneAccess (Rejected e) s)) =
           Some (if thrown_message e = Inr (Some (utf16 ''Permission dismissed''))
                 then ''micPermissionDismissedScreen'' else ''micDisabledScreen'')"
    by (cases e)
       (simp_all add: acquireMicrophoneAccess_def acquireMicrophoneAccess_catch_def
          visibleScreen_def lexCall_def showUiScreen_def Let_def)
next
  assume "0 < pendingMic t"
  then show "\<exists>t'. fire (MicSettled Fulfilled) t = Returned t'"
    and "visibleScreen (state_of (fire (MicSettled Fulfilled) t)) = Some ''startScreen''"
    by (simp_all add: visibleScreen_def showUiScreen_def consoleLog_def)
next
  assume "0 < pendingMic t" and "e \<noteq> Nullish"
  then show "\<exists>t'. fire (MicSettled (Rejected e)) t = Returned t'"
    and "visibleScreen (state_of (fire (MicSettled (Rejected e)) t)) =
           Some (if thrown_message e = Inr (Some (utf16 ''Permission dismissed''))
                 then ''micPermissionDismissedScreen'' else ''micDisabledScreen'')"
    by (cases e; simp add: acquireMicrophoneAccess_catch_def visibleScreen_def showUiScreen_def)+
qed

theorem acquireMicrophoneAccess_screen_witness:
  "this_lex (exampleStarted ''localhost'') \<noteq> None \<and>
   0 < pendingMic (exampleStarted ''localhost'') \<and>
   ErrorObject (Failure (utf16 ''Permission dismissed'')) \<noteq> Nullish \<and>
   ErrorObject (Failure (utf16 ''Permission denied'')) \<noteq> Nullish \<and>
   NoMessage \<noteq> Nullish \<and>
   visibleScreen (state_of (acquireMicrophoneAccess Fulfilled (exampleStarted ''localhost''))) =
     Some ''startScreen'' \<and>
   visibleScreen (state_of (acquireMicrophoneAccess
       (Rejected (ErrorObject (Failure (utf16 ''Permission dismissed''))))
       (exampleStarted ''localhost''))) = Some ''micPermissionDismissedScreen'' \<and>
   visibleScreen (state_of (acquireMicrophoneAccess
       (Rejected (ErrorObject (Failure (utf16 ''Permission denied''))))
       (exampleStarted ''localhost''))) = Some ''micDisabledScreen'' \<and>
   visibleScreen (state_of (acquireMicrophoneAccess (Rejected NoMessage)
       (exampleStarted ''localhost''))) = Some ''micDisabledScreen'' \<and>
   visibleScreen (state_of (fire
       (MicSettled (Rejected (ErrorObject (Failure (utf16 ''Permission dismissed'')))))
       (exampleStarted ''localhost''))) = Some ''micPermissionDismissedScreen'' \<and>
   visibleScreen (state_of (fire
       (MicSettled (Rejected (ErrorObject (Failure (utf16 ''Permission denied'')))))
       (exampleStarted ''localhost''))) = Some ''micDisabledScreen''"
proof -
  have l: "this_lex (exampleStarted ''localhost'') \<noteq> None"
    and p: "0 < pendingMic (exampleStarted ''localhost'')"
    by (simp_all add: exampleStarted_fields)
  have d: "utf16 ''Permission denied'' \<noteq> utf16 ''Permission dismissed''"
    by (simp add: utf16_def)
  from l p d
    acquireMicrophoneAccess_screen [of "exampleStarted ''localhost''"
      "ErrorObject (Failure (utf16 ''Permission dismissed''))" "exampleStarted ''localhost''"]
    acquireMicrophoneAccess_screen [of "exampleStarted ''localhost''"
      "ErrorObject (Failure (utf16 ''Permission denied''))" "exampleStarted ''localhost''"]
    acquireMicrophoneAccess_screen [of "exampleStarted ''localhost''"
      NoMessage "exampleStarted ''localhost''"]
  show ?thesis by simp
qed

subsection \<open>C3: handling a chatbot response\<close>

text \<open>
  C3: once the element references are assigned, \<open>handleLexResponse\<close> of a response returns
  with \<open>processing\<close> removed from the classes of the message container and
  \<open>showingMessage\<close> among them, the text of the transcript element set to the input
  transcript between the curly quotation marks U+201C and U+201D, and the response's
  message as the one text added to what the avatar host was asked to speak. The witness
  is the response of the claim on the initialised example page.
\<close>

theorem handleLexResponse_effect:
  assumes "uiReady s"
  shows "\<exists>s'. handleLexResponse (Some r) s = Returned s' \<and>
           classesOf s' ''userMessageContainer'' =
             classList_add ''showingMessage''
               (classList_remove ''processing'' (classesOf s ''userMessageContainer'')) \<and>
           ''processing'' \<notin> set (classesOf s' ''userMessageContainer'') \<and>
           ''showingMessage'' \<in> set (classesOf s' ''userMessageContainer'') \<and>
           textOf s' ''transcriptText'' = [0x201C] @ inputTranscript r @ [0x201D] \<and>
           spoken s' = spoken s @ [message r]"
  using assms
  by (auto simp: uiReady_def handleLexResponse_def displaySpeechInputTranscript_def
       classesOf_def textOf_def platform_defs Let_def)

theorem handleLexResponse_effect_witness:
  "uiReady (exampleStarted ''localhost'') \<and>
   textOf (state_of (handleLexResponse
       (Some \<lparr>inputTranscript = utf16 ''book a hotel'',
              message = utf16 ''Sure, when would you like to check in?''\<rparr>)
       (exampleStarted ''localhost''))) ''transcriptText'' =
     [0x201C] @ utf16 ''book a hotel'' @ [0x201D] \<and>
   classesOf (state_of (handleLexResponse
       (Some \<lparr>inputTranscript = utf16 ''book a hotel'',
              message = utf16 ''Sure, when would you like to check in?''\<rparr>)
       (exampleStarted ''localhost''))) ''userMessageContainer'' = [''showingMessage''] \<and>
   spoken (state_of (handleLexResponse
       (Some \<lparr>inputTranscript = utf16 ''book a hotel'',
              message = utf16 ''Sure, when would you like to check in?''\<rparr>)
       (exampleStarted ''localhost''))) = [utf16 ''Sure, when would you like to check in?'']"
proof -
  have h: "uiReady (exampleStarted ''localhost'')"
    using initialised_exampleStarted [of "''localhost''"] by (simp add: initialised_def)
  have c: "classesOf (exampleStarted ''localhost'') ''userMessageContainer'' = []"
    by (simp add: classesOf_def exampleStarted_document blankElement_def)
  from handleLexResponse_effect [OF h,
      of "\<lparr>inputTranscript = utf16 ''book a hotel'',
           message = utf16 ''Sure, when would you like to check in?''\<rparr>"]
  show ?thesis
    using h c
    by (auto simp: exampleStarted_fields classList_add_def classList_remove_def)
qed

subsection \<open>C4: the response listener is registered twice\<close>

text \<open>
  C4: a completed \<open>initChatbot\<close> leaves exactly four listeners registered, two of them
  under \<open>lexResponseReady\<close> (the closure of \<open>initChatbot\<close> and the closure of
  \<open>initConversationManagement\<close>), and this is what is registered in every reachable state
  in which the voice feature exists on a page with a talk button. A response-ready event
  delivered to an initialised script therefore runs \<open>handleLexResponse\<close> twice, and the
  avatar host is asked to speak the response's message twice.
\<close>

theorem lexResponseReady_registered_twice:
  "(\<forall>s1. initChatbot s0 = Returned s1 \<longrightarrow>
      map_option listeners (this_lex s1) = Some registeredListeners) \<and>
   map snd (filter (\<lambda>(n, h). n = lexResponseReady) registeredListeners) =
     [OnLexResponseReady_initChatbot, OnLexResponseReady_initConversationManagement] \<and>
   (reachable t \<longrightarrow> this_lex t \<noteq> None \<longrightarrow> document t ''talkButton'' \<noteq> None \<longrightarrow>
      map_option listeners (this_lex t) = Some registeredListeners) \<and>
   (initialised s \<longrightarrow>
      fire (LexEmit (LexResponseReady r)) s =
        andThen (handleLexResponse (Some r) s) (handleLexResponse (Some r)) \<and>
      (\<exists>s'. fire (LexEmit (LexResponseReady r)) s = Returned s' \<and>
            spoken s' = spoken s @ [message r, message r]))"
proof (intro conjI allI impI)
  fix s1 assume "initChatbot s0 = Returned s1"
  then show "map_option listeners (this_lex s1) = Some registeredListeners"
    by (cases "document s0 ''talkButton''")
       (auto simp: initChatbot_no_talkButton initChatbot_talkButton)
next
  show "map snd (filter (\<lambda>(n, h). n = lexResponseReady) registeredListeners) =
     [OnLexResponseReady_initChatbot, OnLexResponseReady_initConversationManagement]"
    by (simp add: registeredListeners_def)
next
  assume "reachable t" and "this_lex t \<noteq> None" and "document t ''talkButton'' \<noteq> None"
  moreover from \<open>reachable t\<close> have "listenersWired t" by (simp add: reachable_wired)
  ultimately show "map_option listeners (this_lex t) = Some registeredListeners"
    by (auto simp: listenersWired_def)
next
  assume i: "initialised s"
  then obtain l where l: "this_lex s = Some l" "listeners l = registeredListeners"
    by (auto simp: initialised_def)
  then have "fire (LexEmit (LexResponseReady r)) s =
      andThen (run_handler OnLexResponseReady_initChatbot (Some r) s)
        (run_listeners [OnLexResponseReady_initConversationManagement] (Some r))"
    by (simp add: emit_def registeredListeners_def)
  moreover have "run_handler OnLexResponseReady_initConversationManagement (Some r) =
      handleLexResponse (Some r)"
    by (rule ext) simp
  ultimately show twice: "fire (LexEmit (LexResponseReady r)) s =
        andThen (handleLexResponse (Some r) s) (handleLexResponse (Some r))"
    by (simp add: run_listeners_single)
  from i have "uiReady s" by (simp add: initialised_def)
  then have "\<exists>s1 s2. handleLexResponse (Some r) s = Returned s1 \<and>
      handleLexResponse (Some r) s1 = Returned s2 \<and> spoken s2 = spoken s @ [message r, message r]"
    by (auto simp: uiReady_def handleLexResponse_def displaySpeechInputTranscript_def
          platform_defs Let_def)
  with twice show "\<exists>s'. fire (LexEmit (LexResponseReady r)) s = Returned s' \<and>
            spoken s' = spoken s @ [message r, message r]"
    by auto
qed

theorem lexResponseReady_registered_twice_witness:
  "initChatbot (examplePage ''localhost'') =
     Returned (state_of (initChatbot (examplePage ''localhost''))) \<and>
   map_option listeners (this_lex (state_of (initChatbot (examplePage ''localhost'')))) =
     Some registeredListeners \<and>
   reachable (exampleStarted ''localhost'') \<and>
   this_lex (exampleStarted ''localhost'') \<noteq> None \<and>
   document (exampleStarted ''localhost'') ''talkButton'' \<noteq> None \<and>
   initialised (exampleStarted ''localhost'') \<and>
   spoken (state_of (fire (LexEmit (LexResponseReady
       \<lparr>inputTranscript = utf16 ''book a hotel'', message = utf16 ''Sure''\<rparr>))
       (exampleStarted ''localhost''))) = [utf16 ''Sure'', utf16 ''Sure'']"
proof -
  have r: "initChatbot (examplePage ''localhost'') =
      Returned (state_of (initChatbot (examplePage ''localhost'')))"
    by (simp add: initChatbot_talkButton [OF examplePage_talkButton])
  have e: "reachable (exampleStarted ''localhost'')"
    "this_lex (exampleStarted ''localhost'') \<noteq> None"
    "document (exampleStarted ''localhost'') ''talkButton'' \<noteq> None"
    "initialised (exampleStarted ''localhost'')"
    by (simp_all add: reachable_exampleStarted exampleStarted_fields exampleStarted_document
          initialised_exampleStarted)
  note t = lexResponseReady_registered_twice [of "examplePage ''localhost''"
      "exampleStarted ''localhost''" "exampleStarted ''localhost''"
      "\<lparr>inputTranscript = utf16 ''book a hotel'', message = utf16 ''Sure''\<rparr>"]
  from t r have a: "map_option listeners
      (this_lex (state_of (initChatbot (examplePage ''localhost'')))) = Some registeredListeners"
    by blast
  from t e(4) obtain s' where
    "fire (LexEmit (LexResponseReady
       \<lparr>inputTranscript = utf16 ''book a hotel'', message = utf16 ''Sure''\<rparr>))
       (exampleStarted ''localhost'') = Returned s'"
    and "spoken s' = spoken (exampleStarted ''localhost'') @
       [message \<lparr>inputTranscript = utf16 ''book a hotel'', message = utf16 ''Sure''\<rparr>,
        message \<lparr>inputTranscript = utf16 ''book a hotel'', message = utf16 ''Sure''\<rparr>]"
    by blast
  then have "spoken (state_of (fire (LexEmit (LexResponseReady
       \<lparr>inputTranscript = utf16 ''book a hotel'', message = utf16 ''Sure''\<rparr>))
       (exampleStarted ''localhost''))) = [utf16 ''Sure'', utf16 ''Sure'']"
    by (simp add: exampleStarted_fields)
  with r a e show ?thesis
    by simp
qed

subsection \<open>C5: record-begin, then record-end\<close>

text \<open>
  C5: delivered to an initialised script, the record-begin event returns with
  \<open>showingMessage\<close> removed from the classes of the message container, and the record-end
  event delivered next returns with \<open>processing\<close> added to them; \<open>showingMessage\<close> is
  absent after both, and the text of the transcript element is what it was before both.
\<close>

theorem recordBegin_then_recordEnd:
  assumes "initialised s"
  shows "\<exists>s1 s2. fire (LexEmit RecordBegin) s = Returned s1 \<and>
           fire (LexEmit RecordEnd) s1 = Returned s2 \<and>
           classesOf s1 ''userMessageContainer'' =
             classList_remove ''showingMessage'' (classesOf s ''userMessageContainer'') \<and>
           classesOf s2 ''userMessageContainer'' =
             classList_add ''processing'' (classesOf s1 ''userMessageContainer'') \<and>
           ''showingMessage'' \<notin> set (classesOf s1 ''userMessageContainer'') \<and>
           ''showingMessage'' \<notin> set (classesOf s2 ''userMessageContainer'') \<and>
           ''processing'' \<in> set (classesOf s2 ''userMessageContainer'') \<and>
           textOf s1 ''transcriptText'' = textOf s ''transcriptText'' \<and>
           textOf s2 ''transcriptText'' = textOf s ''transcriptText''"
  using assms
  by (auto simp: initialised_def uiReady_def emit_def registeredListeners_def
       hideUserMessages_def displayProcessingMessage_def
       classesOf_def textOf_def platform_defs Let_def)

theorem recordBegin_then_recordEnd_witness:
  "initialised (exampleStarted ''localhost'') \<and>
   classesOf (state_of (fire (LexEmit RecordEnd)
       (state_of (fire (LexEmit RecordBegin) (exampleStarted ''localhost'')))))
     ''userMessageContainer'' = [''processing''] \<and>
   textOf (state_of (fire (LexEmit RecordEnd)
       (state_of (fire (LexEmit RecordBegin) (exampleStarted ''localhost'')))))
     ''transcriptText'' = []"
proof -
  have c: "classesOf (exampleStarted ''localhost'') ''userMessageContainer'' = []"
    "textOf (exampleStarted ''localhost'') ''transcriptText'' = []"
    by (simp_all add: classesOf_def textOf_def exampleStarted_document blankElement_def)
  from recordBegin_then_recordEnd [OF initialised_exampleStarted [of "''localhost''"]] c
  show ?thesis
    by (auto simp: initialised_exampleStarted classList_add_def classList_remove_def)
qed

subsection \<open>C6: the record handlers do not throw\<close>

text \<open>
  The claim as written (the handlers never throw, in every state in which the events may
  be delivered) fails on a page without the message container: the initialisation
  completes and registers all four listeners, the reference it assigned is \<open>null\<close>, and
  both events end in a \<open>TypeError\<close>.
\<close>

theorem record_handlers_return_counterexample:
  "reachable exampleNoContainerStarted \<and>
   map_option listeners (this_lex exampleNoContainerStarted) = Some registeredListeners \<and>
   thrown (fire (LexEmit RecordBegin) exampleNoContainerStarted) = Some TypeError \<and>
   thrown (fire (LexEmit RecordEnd) exampleNoContainerStarted) = Some TypeError \<and>
   thrown (hideUserMessages exampleNoContainerStarted) = Some TypeError \<and>
   thrown (displayProcessingMessage exampleNoContainerStarted) = Some TypeError"
proof -
  have p: "pageLoaded examplePageNoContainer"
    using pageLoaded_examplePage [of "''localhost''"]
    by (simp add: pageLoaded_def examplePageNoContainer_def)
  have r: "reachable exampleNoContainerStarted"
    unfolding exampleNoContainerStarted_def
    by (intro reachable.fired reachable.started p)
  have f: "this_lex exampleNoContainerStarted =
      Some \<lparr>botName = ''BookTrip'', botAlias = ''Dev'', listeners = registeredListeners,
            calls = [EnableMicInput]\<rparr>"
    "messageContainerEl exampleNoContainerStarted = None"
    by (simp_all add: exampleNoContainerStarted_def examplePageNoContainer_def example_defs
          platform_defs registeredListeners_def Let_def)
  from r f show ?thesis
    by (simp add: emit_def registeredListeners_def hideUserMessages_def
          displayProcessingMessage_def)
qed

text \<open>
  C6, as amended: on a page that has the message container, in every reachable state (so
  before or after any other event of the session) the record-begin and the record-end
  event are delivered without an exception, and where the listeners are registered a call
  of either listener is synchronous, returns no value and does not throw: it completes
  with the value \<open>undefined\<close> in the state \<open>hideUserMessages\<close> or
  \<open>displayProcessingMessage\<close> returns, and leaves no acquisition suspended and no timer
  armed that was not so before.
\<close>

theorem record_handlers_return:
  assumes "reachable s" and "document s ''userMessageContainer'' \<noteq> None"
  shows "(\<exists>s'. fire (LexEmit RecordBegin) s = Returned s' \<and>
              pendingMic s' = pendingMic s \<and> startTimers s' = startTimers s) \<and>
         (\<exists>s'. fire (LexEmit RecordEnd) s = Returned s' \<and>
              pendingMic s' = pendingMic s \<and> startTimers s' = startTimers s) \<and>
         (map_option listeners (this_lex s) = Some registeredListeners \<longrightarrow>
            (\<exists>s'. call_handler OnRecordBegin None s = Normal Undefined s' \<and>
                  hideUserMessages s = Returned s' \<and>
                  pendingMic s' = pendingMic s \<and> startTimers s' = startTimers s) \<and>
            (\<exists>s'. call_handler OnRecordEnd None s = Normal Undefined s' \<and>
                  displayProcessingMessage s = Returned s' \<and>
                  pendingMic s' = pendingMic s \<and> startTimers s' = startTimers s))"
proof -
  from assms(1) have lw: "listenersWired s" by (simp add: reachable_wired)
  show ?thesis
  proof (cases "this_lex s")
    case None
    then show ?thesis by (simp add: emit_def)
  next
    case (Some l)
    show ?thesis
    proof (cases "document s ''talkButton''")
      case None
      with lw Some have "listeners l = [(lexResponseReady, OnLexResponseReady_initChatbot)]"
        by (simp add: listenersWired_def)
      with Some show ?thesis by (simp add: emit_def registeredListeners_def)
    next
      case Some2: (Some el)
      with lw Some assms(2) have "listeners l = registeredListeners"
        and "messageContainerEl s = Some ''userMessageContainer''"
        by (auto simp: listenersWired_def getElementById_def)
      with Some show ?thesis
        by (simp add: emit_def registeredListeners_def hideUserMessages_def
              displayProcessingMessage_def updateElement_def)
    qed
  qed
qed

theorem record_handlers_return_witness:
  "reachable (exampleStarted ''localhost'') \<and>
   document (exampleStarted ''localhost'') ''userMessageContainer'' \<noteq> None \<and>
   map_option listeners (this_lex (exampleStarted ''localhost'')) = Some registeredListeners \<and>
   fire (LexEmit RecordBegin) (exampleStarted ''localhost'') =
     Returned (state_of (fire (LexEmit RecordBegin) (exampleStarted ''localhost''))) \<and>
   fire (LexEmit RecordEnd) (exampleStarted ''localhost'') =
     Returned (state_of (fire (LexEmit RecordEnd) (exampleStarted ''localhost''))) \<and>
   call_handler OnRecordBegin None (exampleStarted ''localhost'') =
     Normal Undefined (state_of (hideUserMessages (exampleStarted ''localhost''))) \<and>
   call_handler OnRecordEnd None (exampleStarted ''localhost'') =
     Normal Undefined (state_of (displayProcessingMessage (exampleStarted ''localhost''))) \<and>
   pendingMic (state_of (hideUserMessages (exampleStarted ''localhost''))) = 1 \<and>
   pendingMic (state_of (displayProcessingMessage (exampleStarted ''localhost''))) = 1"
proof -
  have h: "reachable (exampleStarted ''localhost'')"
    "document (exampleStarted ''localhost'') ''userMessageContainer'' \<noteq> None"
    "map_option listeners (this_lex (exampleStarted ''localhost'')) = Some registeredListeners"
    "pendingMic (exampleStarted ''localhost'') = 1"
    by (simp_all add: reachable_exampleStarted exampleStarted_fields exampleStarted_document)
  from record_handlers_return [OF h(1) h(2)] h show ?thesis
    by auto
qed

subsection \<open>C7: the shortcut key and the enable-mic button\<close>

text \<open>
  The claim as written (for every press or click, both paths acquire the microphone once)
  fails after an initialisation with an empty location host: \<open>initUi\<close> has returned before
  binding the button, so a click on it runs nothing, while the key handler is bound by its
  decorator and calls \<open>enableMicInput\<close> once more.
\<close>

theorem keyDownHandler_click_counterexample:
  "reachable (exampleStarted '''') \<and>
   micAccessAttempts (exampleStarted '''') = 1 \<and>
   micAccessAttempts (state_of (fire (Click ''enableMicButton'') (exampleStarted ''''))) = 1 \<and>
   micAccessAttempts (state_of (fire (KeyEvent ''z'' KEYDOWN) (exampleStarted ''''))) = 2 \<and>
   fire (Click ''enableMicButton'') (exampleStarted '''') \<noteq>
     fire (KeyEvent ''z'' KEYDOWN) (exampleStarted '''')"
proof -
  have c: "fire (Click ''enableMicButton'') (exampleStarted '''') = Returned (exampleStarted '''')"
    by (simp add: dispatch_def exampleStarted_document blankElement_def)
  have k: "micAccessAttempts (state_of (fire (KeyEvent ''z'' KEYDOWN) (exampleStarted ''''))) = 2"
    by (simp add: keyboardEvent_def keyDownHandler_def acquireMicrophoneAccess_begin_def
          micAccessAttempts_def lexCall_def showUiScreen_def exampleStarted_fields Let_def)
  have a: "micAccessAttempts (exampleStarted '''') = 1"
    by (simp add: micAccessAttempts_def exampleStarted_fields)
  have "fire (Click ''enableMicButton'') (exampleStarted '''') \<noteq>
     fire (KeyEvent ''z'' KEYDOWN) (exampleStarted '''')"
  proof
    assume "fire (Click ''enableMicButton'') (exampleStarted '''') =
      fire (KeyEvent ''z'' KEYDOWN) (exampleStarted '''')"
    then have "micAccessAttempts (state_of (fire (Click ''enableMicButton'') (exampleStarted ''''))) =
      micAccessAttempts (state_of (fire (KeyEvent ''z'' KEYDOWN) (exampleStarted '''')))"
      by simp
    with c k a show False by simp
  qed
  with c k a show ?thesis by (simp add: reachable_exampleStarted)
qed

text \<open>
  C7, as amended: in every state in which \<open>initUi\<close> has bound the click handler of the
  enable-mic button, pressing the key \<open>z\<close> and clicking the button have the same outcome,
  that of one call of \<open>acquireMicrophoneAccess\<close>, which, once the voice feature exists,
  calls \<open>enableMicInput\<close> exactly once.
\<close>

theorem keyDownHandler_click:
  assumes "map_option onclick (document s ''enableMicButton'') = Some (Some OnEnableMicClick)"
  shows "fire (Click ''enableMicButton'') s = fire (KeyEvent ''z'' KEYDOWN) s \<and>
         fire (KeyEvent ''z'' KEYDOWN) s = acquireMicrophoneAccess_begin s \<and>
         (this_lex s \<noteq> None \<longrightarrow>
            micAccessAttempts (state_of (acquireMicrophoneAccess_begin s)) =
              Suc (micAccessAttempts s))"
  using assms
  by (auto simp: keyboardEvent_def keyDownHandler_def dispatch_def micAccessAttempts_def
       acquireMicrophoneAccess_begin_def platform_defs Let_def)

theorem keyDownHandler_click_witness:
  "map_option onclick (document (exampleStarted ''localhost'') ''enableMicButton'') =
     Some (Some OnEnableMicClick) \<and>
   this_lex (exampleStarted ''localhost'') \<noteq> None \<and>
   fire (Click ''enableMicButton'') (exampleStarted ''localhost'') =
     fire (KeyEvent ''z'' KEYDOWN) (exampleStarted ''localhost'') \<and>
   micAccessAttempts (state_of (fire (Click ''enableMicButton'') (exampleStarted ''localhost''))) = 2"
proof -
  have h: "map_option onclick (document (exampleStarted ''localhost'') ''enableMicButton'') =
     Some (Some OnEnableMicClick)"
    and l: "this_lex (exampleStarted ''localhost'') \<noteq> None"
    and a: "micAccessAttempts (exampleStarted ''localhost'') = 1"
    by (simp_all add: exampleStarted_document exampleStarted_fields micAccessAttempts_def)
  from keyDownHandler_click [OF h] h l a show ?thesis
    by simp
qed

subsection \<open>C8: the space key and the talk button\<close>

text \<open>
  The claim as written (pressing space starts the voice recording, releasing it stops the
  recording) fails on the initialised example page: the voice feature receives
  \<open>beginVoiceRecording\<close> and \<open>endVoiceRecording\<close> from the mouse handlers of the talk button,
  and nothing from the two key handlers.
\<close>

theorem talkKeyHandlers_counterexample:
  "map_option calls (this_lex (exampleStarted ''localhost'')) = Some [EnableMicInput] \<and>
   map_option calls (this_lex (state_of (fire (KeyEvent '' '' KEYDOWN)
       (exampleStarted ''localhost'')))) = Some [EnableMicInput] \<and>
   map_option calls (this_lex (state_of (fire (KeyEvent '' '' KEYUP)
       (exampleStarted ''localhost'')))) = Some [EnableMicInput] \<and>
   map_option calls (this_lex (state_of (fire (MouseDown ''talkButton'')
       (exampleStarted ''localhost'')))) = Some [EnableMicInput, BeginVoiceRecording] \<and>
   map_option calls (this_lex (state_of (fire (MouseUp ''talkButton'')
       (exampleStarted ''localhost'')))) = Some [EnableMicInput, EndVoiceRecording]"
  by (simp add: keyboardEvent_def talkKeyDownHandler_def talkKeyUpHandler_def dispatch_def
        consoleLog_def lexCall_def exampleStarted_fields exampleStarted_document)

text \<open>
  C8, as amended: the press and the release of the space key are bound to handlers that
  leave the voice recording alone: the key-down handler changes nothing and the key-up
  handler only writes \<open>End listening.\<close> to the console. The mouse-down handler of the talk
  button logs and calls \<open>beginVoiceRecording\<close>, its mouse-up handler logs and calls
  \<open>endVoiceRecording\<close>.
\<close>

theorem talkKeyHandlers:
  "fire (KeyEvent '' '' KEYDOWN) s = Returned s \<and>
   fire (KeyEvent '' '' KEYUP) s =
     Returned (s\<lparr>console := console s @ [LogText ''End listening.'']\<rparr>) \<and>
   (map_option onmousedown (document s ''talkButton'') = Some (Some OnTalkMouseDown) \<longrightarrow>
    this_lex s = Some l \<longrightarrow>
      fire (MouseDown ''talkButton'') s =
        Returned (s\<lparr>console := console s @ [LogText ''Begin recording''],
                    this_lex := Some (l\<lparr>calls := calls l @ [BeginVoiceRecording]\<rparr>)\<rparr>)) \<and>
   (map_option onmouseup (document s ''talkButton'') = Some (Some OnTalkMouseUp) \<longrightarrow>
    this_lex s = Some l \<longrightarrow>
      fire (MouseUp ''talkButton'') s =
        Returned (s\<lparr>console := console s @ [LogText ''End recording''],
                    this_lex := Some (l\<lparr>calls := calls l @ [EndVoiceRecording]\<rparr>)\<rparr>))"
  by (auto simp: keyboardEvent_def talkKeyDownHandler_def talkKeyUpHandler_def dispatch_def
        platform_defs)

theorem talkKeyHandlers_witness:
  "map_option onmousedown (document (exampleStarted ''localhost'') ''talkButton'') =
     Some (Some OnTalkMouseDown) \<and>
   map_option onmouseup (document (exampleStarted ''localhost'') ''talkButton'') =
     Some (Some OnTalkMouseUp) \<and>
   this_lex (exampleStarted ''localhost'') =
     Some \<lparr>botName = ''BookTrip'', botAlias = ''Dev'', listeners = registeredListeners,
           calls = [EnableMicInput]\<rparr> \<and>
   fire (KeyEvent '' '' KEYDOWN) (exampleStarted ''localhost'') =
     Returned (exampleStarted ''localhost'') \<and>
   console (state_of (fire (KeyEvent '' '' KEYUP) (exampleStarted ''localhost''))) =
     console (exampleStarted ''localhost'') @ [LogText ''End listening.''] \<and>
   console (state_of (fire (MouseDown ''talkButton'') (exampleStarted ''localhost''))) =
     console (exampleStarted ''localhost'') @ [LogText ''Begin recording''] \<and>
   console (state_of (fire (MouseUp ''talkButton'') (exampleStarted ''localhost''))) =
     console (exampleStarted ''localhost'') @ [LogText ''End recording'']"
proof -
  have h: "map_option onmousedown (document (exampleStarted ''localhost'') ''talkButton'') =
     Some (Some OnTalkMouseDown)"
    "map_option onmouseup (document (exampleStarted ''localhost'') ''talkButton'') =
     Some (Some OnTalkMouseUp)"
    "this_lex (exampleStarted ''localhost'') =
     Some \<lparr>botName = ''BookTrip'', botAlias = ''Dev'', listeners = registeredListeners,
           calls = [EnableMicInput]\<rparr>"
    by (simp_all add: exampleStarted_document exampleStarted_fields)
  from talkKeyHandlers [of "exampleStarted ''localhost''"
      "\<lparr>botName = ''BookTrip'', botAlias = ''Dev'', listeners = registeredListeners,
        calls = [EnableMicInput]\<rparr>"] h
  show ?thesis by simp
qed

subsection \<open>C9: handling the same response twice\<close>

text \<open>
  C9: once the element references are assigned, handling a response and then handling the
  same response again both return, and the second leaves the page as the first left it:
  the same elements with the same classes and texts, and the same screens shown.
\<close>

theorem handleLexResponse_idempotent:
  assumes "uiReady s"
  shows "\<exists>s1 s2. handleLexResponse (Some r) s = Returned s1 \<and>
           handleLexResponse (Some r) s1 = Returned s2 \<and>
           document s2 = document s1 \<and> shownScreens s2 = shownScreens s1"
  using assms
  by (auto simp: uiReady_def handleLexResponse_def displaySpeechInputTranscript_def
       platform_defs Let_def fun_eq_iff)

theorem handleLexResponse_idempotent_witness:
  "uiReady (exampleStarted ''localhost'') \<and>
   document (state_of (handleLexResponse
       (Some \<lparr>inputTranscript = utf16 ''book a hotel'', message = utf16 ''Sure''\<rparr>)
       (state_of (handleLexResponse
          (Some \<lparr>inputTranscript = utf16 ''book a hotel'', message = utf16 ''Sure''\<rparr>)
          (exampleStarted ''localhost''))))) =
   document (state_of (handleLexResponse
       (Some \<lparr>inputTranscript = utf16 ''book a hotel'', message = utf16 ''Sure''\<rparr>)
       (exampleStarted ''localhost'')))"
proof -
  have h: "uiReady (exampleStarted ''localhost'')"
    using initialised_exampleStarted [of "''localhost''"] by (simp add: initialised_def)
  from handleLexResponse_idempotent [OF h,
      of "\<lparr>inputTranscript = utf16 ''book a hotel'', message = utf16 ''Sure''\<rparr>"] h
  show ?thesis by auto
qed

subsection \<open>C10: starting the main experience\<close>

text \<open>
  C10: \<open>startMainExperience\<close> returns the state it was given with \<open>chatbotUiScreen\<close> shown
  and the fixed greeting added to what the avatar host was asked to speak, and nothing
  else changed. A click on the start button, once \<open>initUi\<close> has bound it, runs it; and in
  every reachable state no other event does: whatever screens another event shows,
  \<open>chatbotUiScreen\<close> is not among them.
\<close>

theorem startMainExperience_effect:
  "startMainExperience s =
     Returned (s\<lparr>shownScreens := shownScreens s @ [''chatbotUiScreen''],
                 spoken := spoken s @ [greeting]\<rparr>) \<and>
   (map_option onclick (document s ''startButton'') = Some (Some OnStartClick) \<longrightarrow>
      fire (Click ''startButton'') s = startMainExperience s) \<and>
   (reachable t \<longrightarrow> ev \<noteq> Click ''startButton'' \<longrightarrow>
      noChatbotUiScreen t (state_of (fire ev t)))"
proof (intro conjI impI)
  show "startMainExperience s =
     Returned (s\<lparr>shownScreens := shownScreens s @ [''chatbotUiScreen''],
                 spoken := spoken s @ [greeting]\<rparr>)"
    by (simp add: startMainExperience_def platform_defs)
next
  assume "map_option onclick (document s ''startButton'') = Some (Some OnStartClick)"
  then show "fire (Click ''startButton'') s = startMainExperience s"
    by (auto simp: dispatch_def)
next
  assume "reachable t" and "ev \<noteq> Click ''startButton''"
  then show "noChatbotUiScreen t (state_of (fire ev t))"
    by (rule fire_noChatbotUiScreen)
qed

theorem startMainExperience_effect_witness:
  "map_option onclick (document (exampleStarted ''localhost'') ''startButton'') =
     Some (Some OnStartClick) \<and>
   reachable (exampleStarted ''localhost'') \<and>
   LexEmit (LexResponseReady \<lparr>inputTranscript = [], message = greeting\<rparr>) \<noteq> Click ''startButton'' \<and>
   visibleScreen (state_of (fire (Click ''startButton'') (exampleStarted ''localhost''))) =
     Some ''chatbotUiScreen'' \<and>
   spoken (state_of (fire (Click ''startButton'') (exampleStarted ''localhost''))) = [greeting] \<and>
   noChatbotUiScreen (exampleStarted ''localhost'')
     (state_of (fire (LexEmit (LexResponseReady \<lparr>inputTranscript = [], message = greeting\<rparr>))
        (exampleStarted ''localhost'')))"
proof -
  have h: "map_option onclick (document (exampleStarted ''localhost'') ''startButton'') =
     Some (Some OnStartClick)"
    by (simp add: exampleStarted_document)
  from startMainExperience_effect [of "exampleStarted ''localhost''" "exampleStarted ''localhost''"
      "LexEmit (LexResponseReady \<lparr>inputTranscript = [], message = greeting\<rparr>)"]
    h reachable_exampleStarted [of "''localhost''"]
  show ?thesis
    by (simp add: visibleScreen_def exampleStarted_fields)
qed

end
